theory Spec2Isabelle
  imports Complex_Main "HOL-Library.Log_Nat"
begin

section \<open>Automatic watering of indoor plants: the configuration\<close>

text \<open>
  The module constants of \<^verbatim>\<open>PythonApplication1.py\<close>. The source fixes them at
  module level; they are collected in one record so that properties can be stated for
  every calibration, and \<open>module_constants\<close> gives the values the source ships with.
  \<open>THRESHOLD_PERCENT\<close> and \<open>CHECK_INTERVAL_SEC\<close> are Python integers that are only
  compared with, or passed where, a float is expected; they are kept as reals.
\<close>

record config =
  MOISTURE_DRY :: int
  MOISTURE_WET :: int
  THRESHOLD_PERCENT :: real
  PUMP_TIME_SEC :: real
  CHECK_INTERVAL_SEC :: real
  RELAY_PIN :: nat

definition module_constants :: config where
  "module_constants =
     \<lparr>MOISTURE_DRY = 25000, MOISTURE_WET = 15000, THRESHOLD_PERCENT = 40,
      PUMP_TIME_SEC = 3, CHECK_INTERVAL_SEC = 60, RELAY_PIN = 17\<rparr>"

text \<open>
  A calibration whose two points coincide, one whose points are swapped, one whose points
  lie \<open>10 ^ 17\<close> apart, and the shipped constants with the threshold at \<open>29\<close>.
\<close>

definition coinciding_calibration :: config where
  "coinciding_calibration = module_constants\<lparr>MOISTURE_DRY := 20000, MOISTURE_WET := 20000\<rparr>"

definition swapped_calibration :: config where
  "swapped_calibration = module_constants\<lparr>MOISTURE_DRY := 15000, MOISTURE_WET := 25000\<rparr>"


definition threshold_29 :: config where
  "threshold_29 = module_constants\<lparr>THRESHOLD_PERCENT := 29\<rparr>"

section \<open>Exceptions\<close>

text \<open>
  The exceptions that the statements of the program can raise: the operator's interrupt,
  a true division by zero or with a quotient beyond the floats, \<^verbatim>\<open>time.sleep\<close> on a
  negative length or on one the clock cannot represent, a failed conversion on the I2C
  bus, and a \<^verbatim>\<open>print\<close> to a standard output that is gone.
\<close>

datatype exn =
    KeyboardInterrupt
  | ZeroDivisionError
  | OverflowError
  | ValueError
  | OSError
  | BrokenPipeError

section \<open>Floats\<close>

text \<open>
  A Python float is a binary64 number; it is represented by the real number it denotes.
  \<open>ilog2 x\<close> is the binary exponent of a positive \<open>x\<close>: the \<open>e\<close> with
  \<open>2 ^ e \<le> x < 2 ^ (e + 1)\<close>, read off the bit length of the integer part of \<open>x\<close> or
  of its reciprocal.
\<close>

definition ilog2 :: "real \<Rightarrow> int" where
  "ilog2 x = (if 1 \<le> x then bitlen \<lfloor>x\<rfloor> - 1 else - bitlen (\<lceil>1 / x\<rceil> - 1))"

text \<open>Rounding to the nearest integer, a tie going to the even one.\<close>

definition rne :: "real \<Rightarrow> int" where
  "rne y =
     (let f = \<lfloor>y\<rfloor>; r = y - real_of_int f
      in if r < 1 / 2 then f else if 1 / 2 < r then f + 1 else if even f then f else f + 1)"

text \<open>
  Rounding a real number to binary64, to nearest with ties to even: 53 significant bits,
  the exponent of the last bit not below \<open>- 1074\<close> (so small numbers are rounded on the
  grid of the subnormal numbers, down to zero). Numbers of magnitude \<open>2 ^ 1024\<close> and more
  have no binary64 value; the operations below say what happens to them.
\<close>

definition b64 :: "real \<Rightarrow> real" where
  "b64 x =
     (if x = 0 then 0
      else let e = max (ilog2 \<bar>x\<bar>) (- 1022) - 52
           in sgn x * real_of_int (rne (\<bar>x\<bar> / 2 powi e)) * 2 powi e)"

section \<open>The moisture percentage of a raw reading\<close>

text \<open>
  Python's \<^verbatim>\<open>a / b\<close> on two integers: it raises on a zero divisor, and otherwise
  yields the quotient rounded once to binary64, or raises when that is too large for a
  float.
\<close>

definition truediv :: "int \<Rightarrow> int \<Rightarrow> exn + real" where
  "truediv a b =
     (if b = 0 then Inl ZeroDivisionError
      else let q = b64 (real_of_int a / real_of_int b)
           in if 2 powi 1024 \<le> \<bar>q\<bar> then Inl OverflowError else Inr q)"

text \<open>
  Python's \<^verbatim>\<open>x * y\<close> on floats, for a product below \<open>2 ^ 1024\<close> in magnitude: the
  product rounded to binary64. The program forms one product, of a quotient that is at
  most \<open>1\<close> with \<open>100\<close>.
\<close>

definition float_mul :: "real \<Rightarrow> real \<Rightarrow> real" where
  "float_mul x y = b64 (x * y)"

text \<open>
  The three branches of the \<^verbatim>\<open>if/elif/else\<close> of \<^verbatim>\<open>read_moisture_percentage\<close>,
  tested in the order of the source.
\<close>

datatype branch = Dry_branch | Wet_branch | Interpolation_branch

definition branch_of :: "config \<Rightarrow> int \<Rightarrow> branch" where
  "branch_of c raw_value =
     (if raw_value \<ge> MOISTURE_DRY c then Dry_branch
      else if raw_value \<le> MOISTURE_WET c then Wet_branch
      else Interpolation_branch)"

text \<open>
  The computation that \<^verbatim>\<open>read_moisture_percentage\<close> performs on the value it has read
  (lines 51 to 58 of the source): \<open>0.0\<close> at or above the dry point, \<open>100.0\<close> at or
  below the wet point, and otherwise the clamped linear interpolation. The division is
  evaluated in the third branch only.
\<close>

definition moisture_percentage :: "config \<Rightarrow> int \<Rightarrow> exn + real" where
  "moisture_percentage c raw_value =
     (case branch_of c raw_value of
        Dry_branch \<Rightarrow> Inr 0
      | Wet_branch \<Rightarrow> Inr 100
      | Interpolation_branch \<Rightarrow>
          (case truediv (MOISTURE_DRY c - raw_value) (MOISTURE_DRY c - MOISTURE_WET c) of
             Inl e \<Rightarrow> Inl e
           | Inr q \<Rightarrow> (let percentage = float_mul q 100 in Inr (max 0 (min 100 percentage)))))"

section \<open>The world the program runs in\<close>

text \<open>
  The relay is active-low: the source drives the pin \<open>LOW\<close> to switch the pump on and
  \<open>HIGH\<close> to switch it off.
\<close>

datatype level = LOW | HIGH

text \<open>
  The lines the program prints, one constructor for each \<^verbatim>\<open>print\<close> call of
  \<^verbatim>\<open>control_pump\<close>, \<^verbatim>\<open>main_loop\<close> and \<^verbatim>\<open>cleanup\<close>, with the values
  interpolated into the line. The wall-clock stamp of the status line and the rounding of
  the percentage to one decimal place are not modelled.
\<close>

datatype message =
    Status real int
  | Below_threshold real
  | Moisture_ok
  | Next_check real
  | Separator
  | Pump_starting real
  | Pump_off
  | Stopped_by_user
  | Cleaning_up
  | Shutdown_done

text \<open>What the program does to its surroundings, in the order in which it happens.\<close>

datatype event =
    Read int
  | Output nat level
  | Sleep real
  | Print message
  | Released

text \<open>
  The state threaded through the program. Four fields belong to the environment and are
  never written by the program, except that time passes and a delivered interrupt is
  consumed: \<open>sensor w n\<close> is the outcome of the \<open>n\<close>-th conversion of the analog
  channel (\<open>None\<close> when the bus fails); \<open>stdout w n\<close> says whether the \<open>n\<close>-th
  \<^verbatim>\<open>print\<close> can be written; \<open>sleep_limit w\<close> is the longest sleep the platform's
  clock can represent; and \<open>signals w\<close> lists the operator's interrupts still to come:
  the first is observed after as many more operations have completed as its entry says,
  and each later entry counts from the delivery of the one before it. The other fields are
  the number of conversions and of prints requested so far, the level each output pin is
  driven to, and the trace of events.
\<close>

record world =
  sensor :: "nat \<Rightarrow> int option"
  stdout :: "nat \<Rightarrow> bool"
  sleep_limit :: real
  signals :: "nat list"
  reads :: nat
  prints :: nat
  gpio :: "nat \<Rightarrow> level option"
  trace :: "event list"

type_synonym 'a prog = "world \<Rightarrow> (exn + 'a) \<times> world"

definition raise :: "exn \<Rightarrow> 'a prog" where
  "raise e w = (Inl e, w)"

text \<open>Sequencing: an exception of the first statement skips the rest.\<close>

definition bnd :: "'a prog \<Rightarrow> ('a \<Rightarrow> 'b prog) \<Rightarrow> 'b prog" where
  "bnd m f w = (case m w of (Inl e, w') \<Rightarrow> (Inl e, w') | (Inr x, w') \<Rightarrow> f x w')"

text \<open>An interrupt is due when the first countdown has run out.\<close>

fun due :: "nat list \<Rightarrow> bool" where
  "due (0 # ks) = True"
| "due ks = False"

text \<open>One operation completes: the first countdown goes down by one.\<close>

fun elapse :: "nat list \<Rightarrow> nat list" where
  "elapse [] = []"
| "elapse (k # ks) = (k - 1) # ks"

text \<open>
  Every operation first looks for the interrupt: when one is due, \<^verbatim>\<open>KeyboardInterrupt\<close>
  is raised in place of the operation (for a sleep: while it blocks) and that interrupt
  is consumed.
\<close>

definition observe :: "unit prog" where
  "observe w =
     (if due (signals w) then (Inl KeyboardInterrupt, w\<lparr>signals := tl (signals w)\<rparr>)
      else (Inr (), w\<lparr>signals := elapse (signals w)\<rparr>))"

definition emit :: "event \<Rightarrow> unit prog" where
  "emit e w = (Inr (), w\<lparr>trace := trace w @ [e]\<rparr>)"

text \<open>\<^verbatim>\<open>print\<close> raises when the line cannot be written.\<close>

definition py_print :: "message \<Rightarrow> unit prog" where
  "py_print m =
     bnd observe (\<lambda>_ w.
       if stdout w (prints w)
       then (Inr (), w\<lparr>prints := Suc (prints w), trace := trace w @ [Print m]\<rparr>)
       else (Inl BrokenPipeError, w\<lparr>prints := Suc (prints w)\<rparr>))"

text \<open>
  \<^verbatim>\<open>time.sleep\<close> refuses a negative length, and a length beyond what the clock can
  represent.
\<close>

definition time_sleep :: "real \<Rightarrow> unit prog" where
  "time_sleep secs =
     bnd observe (\<lambda>_ w.
       if secs < 0 then raise ValueError w
       else if sleep_limit w < secs then raise OverflowError w
       else emit (Sleep secs) w)"

definition GPIO_output :: "nat \<Rightarrow> level \<Rightarrow> unit prog" where
  "GPIO_output pin v =
     bnd observe (\<lambda>_ w. (Inr (), w\<lparr>gpio := (gpio w)(pin \<mapsto> v), trace := trace w @ [Output pin v]\<rparr>))"

text \<open>\<^verbatim>\<open>GPIO.cleanup()\<close> hands the pins back: none is driven any more.\<close>

definition GPIO_cleanup :: "unit prog" where
  "GPIO_cleanup =
     bnd observe (\<lambda>_ w. (Inr (), w\<lparr>gpio := Map.empty, trace := trace w @ [Released]\<rparr>))"

text \<open>\<^verbatim>\<open>channel.value\<close>: each evaluation asks the converter for a new sample.\<close>

definition channel_value :: "int prog" where
  "channel_value =
     bnd observe (\<lambda>_ w.
       case sensor w (reads w) of
         None \<Rightarrow> (Inl OSError, w\<lparr>reads := Suc (reads w)\<rparr>)
       | Some v \<Rightarrow> (Inr v, w\<lparr>reads := Suc (reads w), trace := trace w @ [Read v]\<rparr>))"

section \<open>The functions of the program\<close>

definition read_moisture_percentage :: "config \<Rightarrow> real prog" where
  "read_moisture_percentage c =
     bnd channel_value (\<lambda>raw_value w. (moisture_percentage c raw_value, w))"

definition control_pump :: "config \<Rightarrow> bool \<Rightarrow> real \<Rightarrow> unit prog" where
  "control_pump c state duration =
     (if state then
        bnd (py_print (Pump_starting duration)) (\<lambda>_.
        bnd (GPIO_output (RELAY_PIN c) LOW) (\<lambda>_.
        bnd (time_sleep duration) (\<lambda>_.
        bnd (GPIO_output (RELAY_PIN c) HIGH) (\<lambda>_.
        py_print Pump_off))))
      else GPIO_output (RELAY_PIN c) HIGH)"

text \<open>\<^verbatim>\<open>control_pump(False)\<close>: the duration defaults to \<open>0\<close>.\<close>

definition deactivate :: "config \<Rightarrow> unit prog" where
  "deactivate c = control_pump c False 0"

definition cleanup :: "config \<Rightarrow> unit prog" where
  "cleanup c =
     bnd (py_print Cleaning_up) (\<lambda>_.
     bnd (deactivate c) (\<lambda>_.
     bnd GPIO_cleanup (\<lambda>_.
     py_print Shutdown_done)))"

text \<open>The body of \<^verbatim>\<open>while True\<close>: one pass of the control loop.\<close>

definition iteration :: "config \<Rightarrow> unit prog" where
  "iteration c =
     bnd (read_moisture_percentage c) (\<lambda>moisture.
     bnd channel_value (\<lambda>raw_value.
     bnd (py_print (Status moisture raw_value)) (\<lambda>_.
     bnd (if moisture < THRESHOLD_PERCENT c then
            bnd (py_print (Below_threshold (THRESHOLD_PERCENT c))) (\<lambda>_.
            control_pump c True (PUMP_TIME_SEC c))
          else py_print Moisture_ok) (\<lambda>_.
     bnd (py_print (Next_check (CHECK_INTERVAL_SEC c))) (\<lambda>_.
     bnd (py_print Separator) (\<lambda>_.
     time_sleep (CHECK_INTERVAL_SEC c)))))))"

text \<open>
  The loop has no exit of its own: it ends only when a pass raises. An execution in which
  that never happens has no result, which is the value \<open>None\<close>.
\<close>

partial_function (option) while_true :: "config \<Rightarrow> world \<Rightarrow> ((exn + unit) \<times> world) option" where
  "while_true c w =
     (case iteration c w of
        (Inl e, w') \<Rightarrow> Some (Inl e, w')
      | (Inr u, w') \<Rightarrow> while_true c w')"

text \<open>
  \<^verbatim>\<open>except KeyboardInterrupt\<close>: the handler runs for that exception only, and every
  other outcome passes through.
\<close>

definition except_KeyboardInterrupt :: "unit prog \<Rightarrow> (exn + unit) \<times> world \<Rightarrow> (exn + unit) \<times> world" where
  "except_KeyboardInterrupt handler out =
     (case out of
        (Inl KeyboardInterrupt, w) \<Rightarrow> handler w
      | _ \<Rightarrow> out)"

text \<open>
  \<^verbatim>\<open>finally\<close>: the block runs whatever the outcome is; the outcome is kept unless the
  block itself raises.
\<close>

definition py_finally :: "unit prog \<Rightarrow> (exn + unit) \<times> world \<Rightarrow> (exn + unit) \<times> world" where
  "py_finally block out =
     (case block (snd out) of
        (Inl e, w') \<Rightarrow> (Inl e, w')
      | (Inr u, w') \<Rightarrow> (fst out, w'))"

definition main_loop :: "config \<Rightarrow> world \<Rightarrow> ((exn + unit) \<times> world) option" where
  "main_loop c w =
     map_option
       (\<lambda>out. py_finally (cleanup c) (except_KeyboardInterrupt (py_print Stopped_by_user) out))
       (while_true c w)"

section \<open>Programs and the interrupt\<close>

text \<open>
  A program heeds the interrupts when, started with one pending, it either returns with
  that interrupt nearer by at least one operation, or raises \<^verbatim>\<open>KeyboardInterrupt\<close>
  and has consumed exactly that interrupt.
\<close>

definition heeds :: "'a prog \<Rightarrow> bool" where
  "heeds m \<longleftrightarrow>
     (\<forall>w out w' k ks. m w = (out, w') \<longrightarrow> signals w = k # ks \<longrightarrow>
        (case out of
           Inr x \<Rightarrow> (\<exists>k'<k. signals w' = k' # ks)
         | Inl e \<Rightarrow> (e = KeyboardInterrupt \<longrightarrow> signals w' = ks)))"

text \<open>A program is steady when it leaves the environment's three fixed fields as they are.\<close>

definition steady :: "'a prog \<Rightarrow> bool" where
  "steady m \<longleftrightarrow>
     (\<forall>w out w'. m w = (out, w') \<longrightarrow>
        sensor w' = sensor w \<and> stdout w' = stdout w \<and> sleep_limit w' = sleep_limit w)"

text \<open>
  The surroundings are healthy when no conversion fails and every line can be printed.
\<close>

definition healthy :: "world \<Rightarrow> bool" where
  "healthy w \<longleftrightarrow> (\<forall>n. sensor w n \<noteq> None) \<and> (\<forall>n. stdout w n)"

text \<open>
  A program is faultless up to \<open>L\<close> when, run in healthy surroundings whose clock can
  represent sleeps of length \<open>L\<close>, it raises nothing but \<^verbatim>\<open>KeyboardInterrupt\<close>.
\<close>

definition faultless :: "real \<Rightarrow> 'a prog \<Rightarrow> bool" where
  "faultless L m \<longleftrightarrow>
     (\<forall>w e w'. m w = (Inl e, w') \<longrightarrow> healthy w \<longrightarrow> L \<le> sleep_limit w \<longrightarrow>
        e = KeyboardInterrupt)"

section \<open>Observations on traces\<close>

text \<open>The level last written to a pin, if any.\<close>

definition last_written :: "nat \<Rightarrow> event list \<Rightarrow> level option" where
  "last_written pin evs =
     foldl (\<lambda>acc e. case e of Output p v \<Rightarrow> if p = pin then Some v else acc | _ \<Rightarrow> acc) None evs"

text \<open>
  The pump runs a trace contains: each time the pin is driven \<open>LOW\<close> and the program
  then sleeps, the length of that sleep.
\<close>

fun pump_runs :: "nat \<Rightarrow> event list \<Rightarrow> real list" where
  "pump_runs pin (Output p LOW # Sleep d # es) =
     (if p = pin then d # pump_runs pin es else pump_runs pin es)"
| "pump_runs pin (e # es) = pump_runs pin es"
| "pump_runs pin [] = []"

text \<open>The samples a trace has taken from the converter, and the status lines it has printed.\<close>

fun samples :: "event list \<Rightarrow> int list" where
  "samples (Read v # es) = v # samples es"
| "samples (e # es) = samples es"
| "samples [] = []"

fun statuses :: "event list \<Rightarrow> (real \<times> int) list" where
  "statuses (Print (Status m r) # es) = (m, r) # statuses es"
| "statuses (e # es) = statuses es"
| "statuses [] = []"

section \<open>Sample environments\<close>

text \<open>
  A sensor in soil at half moisture, one in dry soil, one at the edge of a threshold, one
  whose bus fails, and one whose first sample is wet and whose later samples are dry.
\<close>

definition steady_sensor :: "nat \<Rightarrow> int option" where
  "steady_sensor n = Some 20000"

definition dry_sensor :: "nat \<Rightarrow> int option" where
  "dry_sensor n = Some 22500"

definition edge_sensor :: "nat \<Rightarrow> int option" where
  "edge_sensor n = Some 22100"

definition failing_sensor :: "nat \<Rightarrow> int option" where
  "failing_sensor n = None"

fun drying_sensor :: "nat \<Rightarrow> int option" where
  "drying_sensor 0 = Some 14000"
| "drying_sensor (Suc n) = Some 26000"

text \<open>A standard output that takes every line, and one that is gone after \<open>n\<close> lines.\<close>

definition working_stdout :: "nat \<Rightarrow> bool" where
  "working_stdout i = True"

definition stdout_until :: "nat \<Rightarrow> nat \<Rightarrow> bool" where
  "stdout_until n i \<longleftrightarrow> i < n"

text \<open>
  The world as \<^verbatim>\<open>setup\<close> leaves it: the relay pin driven \<open>HIGH\<close>, nothing read or
  printed by the loop yet; the clock counts 64-bit nanoseconds.
\<close>

definition started :: "config \<Rightarrow> (nat \<Rightarrow> int option) \<Rightarrow> nat list \<Rightarrow> world" where
  "started c sens sigs =
     \<lparr>sensor = sens, stdout = working_stdout, sleep_limit = 9223372036, signals = sigs,
      reads = 0, prints = 0, gpio = [RELAY_PIN c \<mapsto> HIGH], trace = []\<rparr>"

section \<open>Floats: rounding is monotone\<close>

lemma pow2_pos [simp]: "0 < (2::real) powi e"
  by (simp add: zero_less_power_int)

lemma pow2_mono: "a \<le> b \<Longrightarrow> (2::real) powi a \<le> 2 powi b"
  by (simp add: power_int_increasing)

lemma pow2_strict_mono: "a < b \<Longrightarrow> (2::real) powi a < 2 powi b"
  by (simp add: power_int_strict_increasing)

lemma pow2_Suc: "(2::real) powi (e + 1) = 2 * 2 powi e"
  by (simp add: power_int_add)

lemma ilog2_bounds:
  assumes "0 < x"
  shows "2 powi (ilog2 x) \<le> x" and "x < 2 powi (ilog2 x + 1)"
proof -
  have "2 powi (ilog2 x) \<le> x \<and> x < 2 powi (ilog2 x + 1)"
  proof (cases "1 \<le> x")
    case True
    define n where "n = \<lfloor>x\<rfloor>"
    have n: "0 < n" using True by (simp add: n_def)
    from bitlen_bounds [OF n] have lo: "2 ^ nat (bitlen n - 1) \<le> n" and hi: "n < 2 ^ nat (bitlen n)"
      by simp_all
    have k: "1 \<le> bitlen n" using n by (simp add: bitlen_alt_def)
    have e: "ilog2 x = bitlen n - 1" using True by (simp add: ilog2_def n_def)
    have "real_of_int (2 ^ nat (bitlen n - 1)) \<le> real_of_int n" using lo by linarith
    also have "\<dots> \<le> x" by (simp add: n_def)
    finally have 1: "2 powi (ilog2 x) \<le> x"
      using k by (simp add: e power_int_nonneg_exp)
    have "n + 1 \<le> 2 ^ nat (bitlen n)" using hi by simp
    then have "real_of_int (n + 1) \<le> real_of_int (2 ^ nat (bitlen n))" by linarith
    moreover have "x < real_of_int (n + 1)" by (simp add: n_def)
    ultimately have "x < real_of_int (2 ^ nat (bitlen n))" by linarith
    then have 2: "x < 2 powi (ilog2 x + 1)"
      using k by (simp add: e power_int_nonneg_exp)
    from 1 2 show ?thesis ..
  next
    case False
    define y where "y = 1 / x"
    have y: "1 < y" using False assms by (simp add: y_def)
    define n where "n = \<lceil>y\<rceil> - 1"
    have n: "0 < n" using y by (simp add: n_def less_ceiling_iff)
    have ny: "real_of_int n < y" and yn: "y \<le> real_of_int n + 1"
      by (simp_all add: n_def) (linarith+)?
    from bitlen_bounds [OF n] have lo: "2 ^ nat (bitlen n - 1) \<le> n" and hi: "n < 2 ^ nat (bitlen n)"
      by simp_all
    have k: "1 \<le> bitlen n" using n by (simp add: bitlen_alt_def)
    have e: "ilog2 x = - bitlen n" using False by (simp add: ilog2_def n_def y_def)
    have "n + 1 \<le> 2 ^ nat (bitlen n)" using hi by simp
    then have "real_of_int (n + 1) \<le> real_of_int (2 ^ nat (bitlen n))" by linarith
    with yn have "y \<le> 2 ^ nat (bitlen n)" by simp
    then have "1 / 2 ^ nat (bitlen n) \<le> x"
      using assms by (simp add: y_def field_simps)
    then have 1: "2 powi (ilog2 x) \<le> x"
      using k by (simp add: e power_int_minus power_int_nonneg_exp field_simps)
    have "(2::real) ^ nat (bitlen n - 1) \<le> real_of_int n" using lo by simp
    with ny have "2 ^ nat (bitlen n - 1) < y" by linarith
    then have "x < 1 / 2 ^ nat (bitlen n - 1)"
      using assms by (simp add: y_def field_simps)
    moreover have "(2::real) powi (ilog2 x + 1) = 1 / 2 ^ nat (bitlen n - 1)"
    proof -
      have eq: "ilog2 x + 1 = - (bitlen n - 1)" by (simp add: e)
      have "(2::real) powi (- (bitlen n - 1)) = inverse (2 powi (bitlen n - 1))"
        by (rule power_int_minus)
      also have "(2::real) powi (bitlen n - 1) = 2 ^ nat (bitlen n - 1)"
        using k by (simp add: power_int_nonneg_exp)
      finally show ?thesis unfolding eq by (simp add: inverse_eq_divide)
    qed
    ultimately have 2: "x < 2 powi (ilog2 x + 1)" by simp
    from 1 2 show ?thesis ..
  qed
  then show "2 powi (ilog2 x) \<le> x" and "x < 2 powi (ilog2 x + 1)" by simp_all
qed

lemma ilog2_unique:
  assumes "2 powi e \<le> x" and "x < 2 powi (e + 1)"
  shows "ilog2 x = e"
proof -
  have x: "0 < x" using assms(1) pow2_pos [of e] by linarith
  note b = ilog2_bounds [OF x]
  have "\<not> ilog2 x < e"
  proof
    assume "ilog2 x < e"
    then have "ilog2 x + 1 \<le> e" by simp
    from pow2_mono [OF this] b(2) assms(1) show False by linarith
  qed
  moreover have "\<not> e < ilog2 x"
  proof
    assume "e < ilog2 x"
    then have "e + 1 \<le> ilog2 x" by simp
    from pow2_mono [OF this] b(1) assms(2) show False by linarith
  qed
  ultimately show ?thesis by simp
qed

lemma ilog2_mono:
  assumes "0 < x" and "x \<le> y"
  shows "ilog2 x \<le> ilog2 y"
proof (rule ccontr)
  assume "\<not> ilog2 x \<le> ilog2 y"
  then have "ilog2 y + 1 \<le> ilog2 x" by simp
  from pow2_mono [OF this] ilog2_bounds(1) [OF assms(1)] ilog2_bounds(2) [of y] assms
  show False by linarith
qed

lemma rne_of_int [simp]: "rne (real_of_int n) = n"
  by (simp add: rne_def)

lemma rne_range: "\<lfloor>y\<rfloor> \<le> rne y" "rne y \<le> \<lfloor>y\<rfloor> + 1"
  by (simp_all add: rne_def Let_def)

lemma rne_mono:
  assumes "y1 \<le> y2"
  shows "rne y1 \<le> rne y2"
proof (cases "\<lfloor>y1\<rfloor> = \<lfloor>y2\<rfloor>")
  case True
  have "y1 - real_of_int \<lfloor>y2\<rfloor> \<le> y2 - real_of_int \<lfloor>y2\<rfloor>" using assms by simp
  then show ?thesis unfolding rne_def Let_def True by auto
next
  case False
  with assms have "\<lfloor>y1\<rfloor> < \<lfloor>y2\<rfloor>" by (simp add: floor_mono order.strict_iff_order)
  then have "\<lfloor>y1\<rfloor> + 1 \<le> \<lfloor>y2\<rfloor>" by simp
  with rne_range(2) [of y1] rne_range(1) [of y2] show ?thesis by linarith
qed

lemma rne_le_int: "y \<le> real_of_int n \<Longrightarrow> rne y \<le> n"
  using rne_mono [of y "real_of_int n"] by simp

lemma rne_ge_int: "real_of_int n \<le> y \<Longrightarrow> n \<le> rne y"
  using rne_mono [of "real_of_int n" y] by simp

lemma b64_zero [simp]: "b64 0 = 0"
  by (simp add: b64_def)

lemma b64_pos:
  assumes "0 < x"
  shows "b64 x = real_of_int (rne (x / 2 powi (max (ilog2 x) (- 1022) - 52)))
                   * 2 powi (max (ilog2 x) (- 1022) - 52)"
  using assms by (simp add: b64_def Let_def)

lemma b64_eval:
  assumes "2 powi e \<le> x" and "x < 2 powi (e + 1)"
  shows "b64 x = real_of_int (rne (x / 2 powi (max e (- 1022) - 52))) * 2 powi (max e (- 1022) - 52)"
proof -
  have x: "0 < x" using assms(1) pow2_pos [of e] by linarith
  show ?thesis unfolding b64_pos [OF x] ilog2_unique [OF assms] ..
qed

lemma b64_nonneg:
  assumes "0 \<le> x"
  shows "0 \<le> b64 x"
proof (cases "x = 0")
  case True
  then show ?thesis by simp
next
  case False
  with assms have x: "0 < x" by simp
  define u where "u = (2::real) powi (max (ilog2 x) (- 1022) - 52)"
  have u: "0 < u" by (simp add: u_def)
  have "real_of_int 0 \<le> x / u" using x u by simp
  from rne_ge_int [OF this] have "0 \<le> real_of_int (rne (x / u))" by simp
  then show ?thesis unfolding b64_pos [OF x] u_def [symmetric] using u by simp
qed

lemma pow2_53: "(2::real) powi (e + 1) = 2 ^ 53 * 2 powi (e - 52)"
proof -
  have "(2::real) powi (e + 1) = 2 powi (53 + (e - 52))"
    by (rule arg_cong [of _ _ "power_int 2"]) simp
  also have "\<dots> = 2 powi 53 * 2 powi (e - 52)" by (rule power_int_add) simp
  finally show ?thesis by simp
qed

lemma pow2_52: "(2::real) powi e = 2 ^ 52 * 2 powi (e - 52)"
proof -
  have "(2::real) powi e = 2 powi (52 + (e - 52))"
    by (rule arg_cong [of _ _ "power_int 2"]) simp
  also have "\<dots> = 2 powi 52 * 2 powi (e - 52)" by (rule power_int_add) simp
  finally show ?thesis by simp
qed

lemma b64_mono:
  assumes "0 \<le> x" and "x \<le> y"
  shows "b64 x \<le> b64 y"
proof (cases "x = 0")
  case True
  then show ?thesis using b64_nonneg [of y] assms by simp
next
  case False
  with assms have x: "0 < x" and y: "0 < y" by simp_all
  define ex where "ex = max (ilog2 x) (- 1022)"
  define ey where "ey = max (ilog2 y) (- 1022)"
  define ux where "ux = (2::real) powi (ex - 52)"
  define uy where "uy = (2::real) powi (ey - 52)"
  have ux: "0 < ux" and uy: "0 < uy" by (simp_all add: ux_def uy_def)
  have bx: "b64 x = real_of_int (rne (x / ux)) * ux"
    unfolding b64_pos [OF x] ux_def ex_def ..
  have by': "b64 y = real_of_int (rne (y / uy)) * uy"
    unfolding b64_pos [OF y] uy_def ey_def ..
  have le: "ex \<le> ey" using ilog2_mono [OF x assms(2)] by (simp add: ex_def ey_def)
  show ?thesis
  proof (cases "ex = ey")
    case True
    then have "ux = uy" by (simp add: ux_def uy_def)
    moreover have "x / uy \<le> y / uy" using assms(2) uy by (simp add: divide_right_mono)
    ultimately show ?thesis using rne_mono [of "x / uy" "y / uy"] uy by (simp add: bx by')
  next
    case False
    with le have lt: "ex < ey" by simp
    have "x < 2 powi (ilog2 x + 1)" by (rule ilog2_bounds(2) [OF x])
    also have "\<dots> \<le> 2 powi (ex + 1)" by (rule pow2_mono) (simp add: ex_def)
    finally have "x < 2 powi (ex + 1)" .
    moreover have e53: "(2::real) powi (ex + 1) = 2 ^ 53 * ux"
      unfolding ux_def by (rule pow2_53)
    ultimately have "x / ux \<le> 2 ^ 53" using ux by (simp add: field_simps)
    then have "x / ux \<le> real_of_int (2 ^ 53)" by simp
    from rne_le_int [OF this] have "real_of_int (rne (x / ux)) \<le> 2 ^ 53" by simp
    then have "b64 x \<le> 2 ^ 53 * ux" unfolding bx using ux by simp
    also have "\<dots> = 2 powi (ex + 1)" by (simp only: e53)
    also have "\<dots> \<le> 2 powi ey" by (rule pow2_mono) (use lt in simp)
    finally have 1: "b64 x \<le> 2 powi ey" .
    have "ey = ilog2 y" using lt by (simp add: ey_def ex_def max_def split: if_splits)
    then have "2 powi ey \<le> y" using ilog2_bounds(1) [OF y] by simp
    moreover have e52: "(2::real) powi ey = 2 ^ 52 * uy"
      unfolding uy_def by (rule pow2_52)
    ultimately have "2 ^ 52 \<le> y / uy" using uy by (simp add: field_simps)
    then have "real_of_int (2 ^ 52) \<le> y / uy" by simp
    from rne_ge_int [OF this] have "2 ^ 52 \<le> real_of_int (rne (y / uy))" by simp
    then have "2 ^ 52 * uy \<le> b64 y" unfolding by' using uy by simp
    also have "2 ^ 52 * uy = 2 powi ey" by (simp only: e52)
    finally have 2: "2 powi ey \<le> b64 y" .
    from 1 2 show ?thesis by simp
  qed
qed


section \<open>Floats: values\<close>

lemma b64_one: "b64 1 = 1"
  by (subst b64_eval [of 0]) (simp_all add: power_int_minus rne_def)

lemma b64_hundred: "b64 100 = 100"
  by (subst b64_eval [of 6]) (simp_all add: power_int_minus rne_def)

lemma b64_half: "b64 (1 / 2) = 1 / 2"
  by (subst b64_eval [of "- 1"]) (simp_all add: power_int_minus rne_def)

lemma b64_fifty: "b64 50 = 50"
  by (subst b64_eval [of 5]) (simp_all add: power_int_minus rne_def)

lemma b64_quarter: "b64 (1 / 4) = 1 / 4"
  by (subst b64_eval [of "- 2"]) (simp_all add: power_int_minus rne_def)

lemma b64_twenty_five: "b64 25 = 25"
  by (subst b64_eval [of 4]) (simp_all add: power_int_minus rne_def)







lemma b64_029: "b64 (29 / 100) = 5224175567749775 / 18014398509481984"
  by (subst b64_eval [of "- 2"]) (simp_all add: power_int_minus rne_def)

lemma b64_029_scaled:
  "b64 (130604389193744375 / 4503599627370496) = 8162774324609023 / 281474976710656"
  by (subst b64_eval [of 4]) (simp_all add: power_int_minus rne_def)


section \<open>The moisture percentage: properties\<close>

text \<open>
  Claim C5. Every raw reading at or above the dry calibration point is mapped to \<open>0.0\<close>,
  whatever the calibration is: the dry test is the first branch.
\<close>

theorem dry_readings_give_zero:
  "MOISTURE_DRY c \<le> r \<Longrightarrow> moisture_percentage c r = Inr 0"
  by (simp add: moisture_percentage_def branch_of_def)

theorem dry_readings_give_zero_witness:
  "MOISTURE_DRY module_constants \<le> 25000 \<and> moisture_percentage module_constants 25000 = Inr 0"
  using dry_readings_give_zero [of module_constants 25000]
  by (simp add: module_constants_def)

text \<open>
  Claim C6. Every raw reading at or below the wet calibration point is mapped to
  \<open>100.0\<close>, for every calibration whose dry point lies above the reading: so for every
  calibration that keeps the dry point above the wet point, the shipped constants among
  them.
\<close>

theorem wet_readings_give_hundred:
  "r \<le> MOISTURE_WET c \<Longrightarrow> r < MOISTURE_DRY c \<Longrightarrow> moisture_percentage c r = Inr 100"
  by (simp add: moisture_percentage_def branch_of_def)

theorem wet_readings_give_hundred_witness:
  "15000 \<le> MOISTURE_WET module_constants \<and> 15000 < MOISTURE_DRY module_constants
   \<and> moisture_percentage module_constants 15000 = Inr 100"
  using wet_readings_give_hundred [of 15000 module_constants]
  by (simp add: module_constants_def)

lemma wet_readings_give_hundred_calibrated:
  "MOISTURE_WET c < MOISTURE_DRY c \<Longrightarrow> r \<le> MOISTURE_WET c \<Longrightarrow> moisture_percentage c r = Inr 100"
  by (simp add: moisture_percentage_def branch_of_def)

text \<open>
  Between the calibration points the quotient is a float in \<open>[0, 1]\<close>, the division
  raises nothing, and the clamp leaves the product as it is.
\<close>

lemma quotient_in_unit:
  assumes "0 < a" and "a < d"
  shows "0 \<le> b64 (real_of_int a / real_of_int d)" and "b64 (real_of_int a / real_of_int d) \<le> 1"
    and "truediv a d = Inr (b64 (real_of_int a / real_of_int d))"
proof -
  define x where "x = real_of_int a / real_of_int d"
  have x: "0 \<le> x" "x \<le> 1" using assms by (simp_all add: x_def)
  show lo: "0 \<le> b64 (real_of_int a / real_of_int d)"
    using b64_nonneg [OF x(1)] by (simp only: x_def)
  have "b64 x \<le> b64 1" using x by (rule b64_mono)
  then show hi: "b64 (real_of_int a / real_of_int d) \<le> 1"
    by (simp only: x_def b64_one)
  have "(1::real) < 2 powi 1024" by simp
  with lo hi have "\<not> 2 powi 1024 \<le> \<bar>b64 (real_of_int a / real_of_int d)\<bar>" by linarith
  moreover have "d \<noteq> 0" using assms by simp
  ultimately show "truediv a d = Inr (b64 (real_of_int a / real_of_int d))"
    by (simp add: truediv_def Let_def)
qed

lemma product_in_range:
  assumes "0 \<le> q" and "q \<le> 1"
  shows "0 \<le> float_mul q 100" and "float_mul q 100 \<le> 100"
proof -
  have "0 \<le> q * 100" using assms by simp
  then show "0 \<le> float_mul q 100" unfolding float_mul_def by (rule b64_nonneg)
  have "b64 (q * 100) \<le> b64 100" using assms by (intro b64_mono) simp_all
  then show "float_mul q 100 \<le> 100" by (simp add: float_mul_def b64_hundred)
qed

lemma interpolation_value:
  assumes "MOISTURE_WET c < r" and "r < MOISTURE_DRY c"
  shows "moisture_percentage c r =
         Inr (float_mul (b64 (real_of_int (MOISTURE_DRY c - r)
                               / real_of_int (MOISTURE_DRY c - MOISTURE_WET c))) 100)"
proof -
  define q where "q = b64 (real_of_int (MOISTURE_DRY c - r)
                               / real_of_int (MOISTURE_DRY c - MOISTURE_WET c))"
  have a: "0 < MOISTURE_DRY c - r" "MOISTURE_DRY c - r < MOISTURE_DRY c - MOISTURE_WET c"
    using assms by simp_all
  note quot = quotient_in_unit [OF a, folded q_def]
  note prod = product_in_range [OF quot(1) quot(2)]
  have br: "branch_of c r = Interpolation_branch"
    using assms by (simp add: branch_of_def)
  have clamp: "max 0 (min 100 (float_mul q 100)) = float_mul q 100"
    using prod by (simp add: max_def min_def)
  show ?thesis
    unfolding moisture_percentage_def br q_def [symmetric]
    by (simp add: quot(3) Let_def clamp)
qed

text \<open>
  For every calibration and every raw reading the computation returns a percentage in
  \<open>[0, 100]\<close>: the divisor of the third branch is positive whenever that branch is
  reached, and its quotient is at most \<open>1\<close>, so no exception comes out of it.
\<close>

lemma moisture_percentage_total:
  "\<exists>p. moisture_percentage c r = Inr p \<and> 0 \<le> p \<and> p \<le> 100"
proof (cases "branch_of c r")
  case Dry_branch
  then show ?thesis by (simp add: moisture_percentage_def)
next
  case Wet_branch
  then show ?thesis by (simp add: moisture_percentage_def)
next
  case Interpolation_branch
  then have r: "MOISTURE_WET c < r" "r < MOISTURE_DRY c"
    by (simp_all add: branch_of_def split: if_splits)
  have a: "0 < MOISTURE_DRY c - r" "MOISTURE_DRY c - r < MOISTURE_DRY c - MOISTURE_WET c"
    using r by simp_all
  note quot = quotient_in_unit [OF a]
  from product_in_range [OF quot(1) quot(2)] interpolation_value [OF r] show ?thesis by simp
qed

lemma moisture_percentage_not_Inl: "moisture_percentage c r \<noteq> Inl e"
  using moisture_percentage_total [of c r] by auto




text \<open>
  Claim C4. When the two calibration points coincide, every raw reading is answered by
  one of the first two branches: the result is \<open>0.0\<close> or \<open>100.0\<close>, the division is
  not reached, and no \<^verbatim>\<open>ZeroDivisionError\<close> comes out.
\<close>

theorem coinciding_calibration_never_divides:
  assumes "MOISTURE_DRY c = MOISTURE_WET c"
  shows "branch_of c r \<noteq> Interpolation_branch
         \<and> (moisture_percentage c r = Inr 0 \<or> moisture_percentage c r = Inr 100)
         \<and> moisture_percentage c r \<noteq> Inl ZeroDivisionError"
  using assms by (auto simp add: moisture_percentage_def branch_of_def)

theorem coinciding_calibration_never_divides_witness:
  "MOISTURE_DRY coinciding_calibration = MOISTURE_WET coinciding_calibration
   \<and> branch_of coinciding_calibration 19999 \<noteq> Interpolation_branch
   \<and> (moisture_percentage coinciding_calibration 19999 = Inr 0
        \<or> moisture_percentage coinciding_calibration 19999 = Inr 100)
   \<and> moisture_percentage coinciding_calibration 19999 \<noteq> Inl ZeroDivisionError"
  using coinciding_calibration_never_divides [of coinciding_calibration 19999]
  by (simp add: coinciding_calibration_def module_constants_def)

text \<open>
  Claim C10. When the dry point is not above the wet point, the interpolation branch is
  unreachable: the result is exactly \<open>0.0\<close> for a reading at or above the dry point and
  exactly \<open>100.0\<close> otherwise, so it lies in \<open>[0, 100]\<close> and nothing is divided.
\<close>

theorem violated_calibration_skips_interpolation:
  assumes "MOISTURE_DRY c \<le> MOISTURE_WET c"
  shows "branch_of c r \<noteq> Interpolation_branch
         \<and> moisture_percentage c r = Inr (if MOISTURE_DRY c \<le> r then 0 else 100)
         \<and> (\<exists>p. moisture_percentage c r = Inr p \<and> 0 \<le> p \<and> p \<le> 100)"
  using assms by (auto simp add: moisture_percentage_def branch_of_def)

theorem violated_calibration_skips_interpolation_witness:
  "MOISTURE_DRY swapped_calibration \<le> MOISTURE_WET swapped_calibration
   \<and> branch_of swapped_calibration 20000 \<noteq> Interpolation_branch
   \<and> moisture_percentage swapped_calibration 20000 = Inr 0
   \<and> moisture_percentage swapped_calibration 14999 = Inr 100"
  using violated_calibration_skips_interpolation [of swapped_calibration 20000]
        violated_calibration_skips_interpolation [of swapped_calibration 14999]
  by (simp add: swapped_calibration_def module_constants_def)

section \<open>Runs that return\<close>

text \<open>
  What a normal return of each operation, and of the functions built from them, says
  about the world before and after.
\<close>

lemma bnd_Inr_iff:
  "bnd m f w = (Inr y, w') \<longleftrightarrow> (\<exists>x w1. m w = (Inr x, w1) \<and> f x w1 = (Inr y, w'))"
  by (auto simp add: bnd_def split: prod.splits sum.splits)

lemma observe_Inr_iff:
  "observe w = (Inr u, w') \<longleftrightarrow> \<not> due (signals w) \<and> w' = w\<lparr>signals := elapse (signals w)\<rparr>"
  by (auto simp add: observe_def)

lemma py_print_Inr_iff:
  "py_print m w = (Inr u, w') \<longleftrightarrow>
     \<not> due (signals w) \<and> stdout w (prints w) \<and>
     w' = w\<lparr>signals := elapse (signals w), prints := Suc (prints w), trace := trace w @ [Print m]\<rparr>"
  by (auto simp add: py_print_def bnd_Inr_iff observe_Inr_iff)

lemma time_sleep_Inr_iff:
  "time_sleep d w = (Inr u, w') \<longleftrightarrow>
     \<not> due (signals w) \<and> 0 \<le> d \<and> d \<le> sleep_limit w \<and>
     w' = w\<lparr>signals := elapse (signals w), trace := trace w @ [Sleep d]\<rparr>"
  by (auto simp add: time_sleep_def bnd_Inr_iff observe_Inr_iff emit_def raise_def)

lemma GPIO_output_Inr_iff:
  "GPIO_output pin v w = (Inr u, w') \<longleftrightarrow>
     \<not> due (signals w) \<and>
     w' = w\<lparr>signals := elapse (signals w), gpio := (gpio w)(pin \<mapsto> v), trace := trace w @ [Output pin v]\<rparr>"
  by (auto simp add: GPIO_output_def bnd_Inr_iff observe_Inr_iff)

lemma GPIO_cleanup_Inr_iff:
  "GPIO_cleanup w = (Inr u, w') \<longleftrightarrow>
     \<not> due (signals w) \<and>
     w' = w\<lparr>signals := elapse (signals w), gpio := Map.empty, trace := trace w @ [Released]\<rparr>"
  by (auto simp add: GPIO_cleanup_def bnd_Inr_iff observe_Inr_iff)

lemma channel_value_Inr_iff:
  "channel_value w = (Inr v, w') \<longleftrightarrow>
     \<not> due (signals w) \<and> sensor w (reads w) = Some v \<and>
     w' = w\<lparr>signals := elapse (signals w), reads := Suc (reads w), trace := trace w @ [Read v]\<rparr>"
  by (auto simp add: channel_value_def bnd_Inr_iff observe_Inr_iff split: option.splits)

lemma read_moisture_percentage_Inr_iff:
  "read_moisture_percentage c w = (Inr m, w') \<longleftrightarrow>
     (\<exists>v. \<not> due (signals w) \<and> sensor w (reads w) = Some v \<and> moisture_percentage c v = Inr m \<and>
     w' = w\<lparr>signals := elapse (signals w), reads := Suc (reads w), trace := trace w @ [Read v]\<rparr>)"
  by (auto simp add: read_moisture_percentage_def bnd_Inr_iff channel_value_Inr_iff)

lemmas prim_Inr_iff = py_print_Inr_iff time_sleep_Inr_iff GPIO_output_Inr_iff GPIO_cleanup_Inr_iff
  channel_value_Inr_iff read_moisture_percentage_Inr_iff

lemma control_pump_on_Inr:
  assumes "control_pump c True d w = (Inr u, w')"
  shows "0 \<le> d" and "d \<le> sleep_limit w"
    and "gpio w' = (gpio w)(RELAY_PIN c \<mapsto> HIGH)"
    and "trace w' = trace w @ [Print (Pump_starting d), Output (RELAY_PIN c) LOW, Sleep d,
                              Output (RELAY_PIN c) HIGH, Print Pump_off]"
  using assms by (auto simp add: control_pump_def bnd_Inr_iff prim_Inr_iff)

lemma iteration_Inr:
  assumes "iteration c w = (Inr u, w')"
  shows "\<exists>r1 r2 m. sensor w (reads w) = Some r1 \<and> sensor w (Suc (reads w)) = Some r2
           \<and> moisture_percentage c r1 = Inr m
           \<and> reads w' = reads w + 2 \<and> sensor w' = sensor w
           \<and> trace w' = trace w @ [Read r1, Read r2, Print (Status m r2)] @
               (if m < THRESHOLD_PERCENT c
                then [Print (Below_threshold (THRESHOLD_PERCENT c)), Print (Pump_starting (PUMP_TIME_SEC c)),
                      Output (RELAY_PIN c) LOW, Sleep (PUMP_TIME_SEC c), Output (RELAY_PIN c) HIGH,
                      Print Pump_off]
                else [Print Moisture_ok]) @
               [Print (Next_check (CHECK_INTERVAL_SEC c)), Print Separator, Sleep (CHECK_INTERVAL_SEC c)]"
proof -
  from assms obtain m w1 where rd: "read_moisture_percentage c w = (Inr m, w1)"
    and rest: "bnd channel_value (\<lambda>raw_value.
     bnd (py_print (Status m raw_value)) (\<lambda>_.
     bnd (if m < THRESHOLD_PERCENT c then
            bnd (py_print (Below_threshold (THRESHOLD_PERCENT c))) (\<lambda>_.
            control_pump c True (PUMP_TIME_SEC c))
          else py_print Moisture_ok) (\<lambda>_.
     bnd (py_print (Next_check (CHECK_INTERVAL_SEC c))) (\<lambda>_.
     bnd (py_print Separator) (\<lambda>_.
     time_sleep (CHECK_INTERVAL_SEC c)))))) w1 = (Inr u, w')"
    unfolding iteration_def bnd_Inr_iff by blast
  from rd obtain r1 where r1: "sensor w (reads w) = Some r1" "moisture_percentage c r1 = Inr m"
    and w1: "w1 = w\<lparr>signals := elapse (signals w), reads := Suc (reads w), trace := trace w @ [Read r1]\<rparr>"
    unfolding read_moisture_percentage_Inr_iff by blast
  show ?thesis
  proof (cases "m < THRESHOLD_PERCENT c")
    case True
    with rest r1 w1 show ?thesis
      by (auto simp add: control_pump_def bnd_Inr_iff prim_Inr_iff)
  next
    case False
    with rest r1 w1 show ?thesis
      by (auto simp add: bnd_Inr_iff prim_Inr_iff)
  qed
qed

section \<open>Runs that raise\<close>

lemma bnd_Inl_iff:
  "bnd m f w = (Inl e, w') \<longleftrightarrow>
     m w = (Inl e, w') \<or> (\<exists>x w1. m w = (Inr x, w1) \<and> f x w1 = (Inl e, w'))"
  by (auto simp add: bnd_def split: prod.splits sum.splits)

lemma observe_Inl_iff:
  "observe w = (Inl e, w') \<longleftrightarrow>
     due (signals w) \<and> e = KeyboardInterrupt \<and> w' = w\<lparr>signals := tl (signals w)\<rparr>"
  by (auto simp add: observe_def)

lemma py_print_Inl_iff:
  "py_print m w = (Inl e, w') \<longleftrightarrow>
     due (signals w) \<and> e = KeyboardInterrupt \<and> w' = w\<lparr>signals := tl (signals w)\<rparr>
     \<or> \<not> due (signals w) \<and> \<not> stdout w (prints w) \<and> e = BrokenPipeError
        \<and> w' = w\<lparr>signals := elapse (signals w), prints := Suc (prints w)\<rparr>"
  by (auto simp add: py_print_def bnd_Inl_iff observe_Inl_iff observe_Inr_iff)

lemma GPIO_output_Inl_iff:
  "GPIO_output pin v w = (Inl e, w') \<longleftrightarrow>
     due (signals w) \<and> e = KeyboardInterrupt \<and> w' = w\<lparr>signals := tl (signals w)\<rparr>"
  by (auto simp add: GPIO_output_def bnd_Inl_iff observe_Inl_iff)

lemma time_sleep_Inl_iff:
  "time_sleep d w = (Inl e, w') \<longleftrightarrow>
     due (signals w) \<and> e = KeyboardInterrupt \<and> w' = w\<lparr>signals := tl (signals w)\<rparr>
     \<or> \<not> due (signals w) \<and> d < 0 \<and> e = ValueError \<and> w' = w\<lparr>signals := elapse (signals w)\<rparr>
     \<or> \<not> due (signals w) \<and> 0 \<le> d \<and> sleep_limit w < d \<and> e = OverflowError
        \<and> w' = w\<lparr>signals := elapse (signals w)\<rparr>"
  by (auto simp add: time_sleep_def bnd_Inl_iff observe_Inl_iff observe_Inr_iff emit_def raise_def)

lemma channel_value_Inl_iff:
  "channel_value w = (Inl e, w') \<longleftrightarrow>
     due (signals w) \<and> e = KeyboardInterrupt \<and> w' = w\<lparr>signals := tl (signals w)\<rparr>
     \<or> \<not> due (signals w) \<and> sensor w (reads w) = None \<and> e = OSError
        \<and> w' = w\<lparr>signals := elapse (signals w), reads := Suc (reads w)\<rparr>"
  by (auto simp add: channel_value_def bnd_Inl_iff observe_Inl_iff observe_Inr_iff split: option.splits)

lemma read_moisture_percentage_Inl_iff:
  "read_moisture_percentage c w = (Inl e, w') \<longleftrightarrow> channel_value w = (Inl e, w')"
  by (auto simp add: read_moisture_percentage_def bnd_Inl_iff moisture_percentage_not_Inl)

section \<open>The interrupt reaches every operation\<close>

lemma due_Cons: "due (k # ks) \<longleftrightarrow> k = 0"
  by (cases k) simp_all

lemma heedsI:
  assumes "\<And>w x w' k ks. m w = (Inr x, w') \<Longrightarrow> signals w = k # ks \<Longrightarrow> \<exists>k'<k. signals w' = k' # ks"
    and "\<And>w w' k ks. m w = (Inl KeyboardInterrupt, w') \<Longrightarrow> signals w = k # ks \<Longrightarrow> signals w' = ks"
  shows "heeds m"
  unfolding heeds_def using assms by (auto split: sum.splits)

lemma heeds_Inr:
  "heeds m \<Longrightarrow> m w = (Inr x, w') \<Longrightarrow> signals w = k # ks \<Longrightarrow> \<exists>k'<k. signals w' = k' # ks"
  unfolding heeds_def by fastforce

lemma heeds_Inl:
  "heeds m \<Longrightarrow> m w = (Inl KeyboardInterrupt, w') \<Longrightarrow> signals w = k # ks \<Longrightarrow> signals w' = ks"
  unfolding heeds_def by fastforce

lemma heeds_bnd:
  assumes m: "heeds m" and f: "\<And>x. heeds (f x)"
  shows "heeds (bnd m f)"
proof (rule heedsI)
  fix w y w' k ks
  assume run: "bnd m f w = (Inr y, w')" and sig: "signals w = k # ks"
  from run obtain x w1 where 1: "m w = (Inr x, w1)" and 2: "f x w1 = (Inr y, w')"
    unfolding bnd_Inr_iff by blast
  from heeds_Inr [OF m 1 sig] obtain k1 where k1: "k1 < k" "signals w1 = k1 # ks" by blast
  from heeds_Inr [OF f 2 k1(2)] obtain k2 where "k2 < k1" "signals w' = k2 # ks" by blast
  with k1 show "\<exists>k'<k. signals w' = k' # ks" by (intro exI [of _ k2]) simp
next
  fix w w' k ks
  assume run: "bnd m f w = (Inl KeyboardInterrupt, w')" and sig: "signals w = k # ks"
  from run consider "m w = (Inl KeyboardInterrupt, w')"
    | x w1 where "m w = (Inr x, w1)" "f x w1 = (Inl KeyboardInterrupt, w')"
    unfolding bnd_Inl_iff by blast
  then show "signals w' = ks"
  proof cases
    case 1
    then show ?thesis using heeds_Inl [OF m _ sig] by simp
  next
    case 2
    from heeds_Inr [OF m 2(1) sig] obtain k1 where "signals w1 = k1 # ks" by blast
    then show ?thesis using heeds_Inl [OF f 2(2)] by simp
  qed
qed

lemma heeds_py_print: "heeds (py_print m)"
  by (rule heedsI) (auto simp add: py_print_Inr_iff py_print_Inl_iff due_Cons gr0_conv_Suc)

lemma heeds_time_sleep: "heeds (time_sleep d)"
  by (rule heedsI) (auto simp add: time_sleep_Inr_iff time_sleep_Inl_iff due_Cons gr0_conv_Suc)

lemma heeds_GPIO_output: "heeds (GPIO_output pin v)"
  by (rule heedsI) (auto simp add: GPIO_output_Inr_iff GPIO_output_Inl_iff due_Cons gr0_conv_Suc)

lemma heeds_channel_value: "heeds channel_value"
  by (rule heedsI) (auto simp add: channel_value_Inr_iff channel_value_Inl_iff due_Cons gr0_conv_Suc)

lemma heeds_read_moisture_percentage: "heeds (read_moisture_percentage c)"
  by (rule heedsI)
     (auto simp add: read_moisture_percentage_Inr_iff read_moisture_percentage_Inl_iff
        channel_value_Inl_iff due_Cons gr0_conv_Suc)

lemma heeds_control_pump: "heeds (control_pump c state d)"
  unfolding control_pump_def
  by (simp add: heeds_bnd heeds_py_print heeds_time_sleep heeds_GPIO_output)

lemma heeds_iteration: "heeds (iteration c)"
  unfolding iteration_def
  by (simp add: heeds_bnd heeds_py_print heeds_time_sleep heeds_channel_value
      heeds_read_moisture_percentage heeds_control_pump)

section \<open>The environment is left as it is\<close>

lemma steadyI:
  assumes "\<And>w out w'. m w = (out, w') \<Longrightarrow>
             sensor w' = sensor w \<and> stdout w' = stdout w \<and> sleep_limit w' = sleep_limit w"
  shows "steady m"
  unfolding steady_def using assms by blast

lemma steadyD:
  assumes "steady m" and "m w = (out, w')"
  shows "sensor w' = sensor w" and "stdout w' = stdout w" and "sleep_limit w' = sleep_limit w"
  using assms unfolding steady_def by blast+

lemma steady_healthy: "steady m \<Longrightarrow> m w = (out, w') \<Longrightarrow> healthy w' = healthy w"
  by (simp add: healthy_def steadyD)

lemma steady_bnd:
  assumes m: "steady m" and f: "\<And>x. steady (f x)"
  shows "steady (bnd m f)"
proof (rule steadyI)
  fix w out w'
  assume run: "bnd m f w = (out, w')"
  show "sensor w' = sensor w \<and> stdout w' = stdout w \<and> sleep_limit w' = sleep_limit w"
  proof (cases "m w")
    case (Pair r w1)
    note s1 = steadyD [OF m Pair]
    show ?thesis
    proof (cases r)
      case (Inl e)
      with run Pair s1 show ?thesis by (simp add: bnd_def)
    next
      case (Inr x)
      with run Pair have "f x w1 = (out, w')" by (simp add: bnd_def)
      from steadyD [OF f this] s1 show ?thesis by simp
    qed
  qed
qed

lemma steady_observe: "steady observe"
  by (rule steadyI) (auto simp add: observe_def split: if_splits)

lemma steady_py_print: "steady (py_print m)"
  unfolding py_print_def
  by (rule steady_bnd [OF steady_observe]) (rule steadyI, auto split: if_splits)

lemma steady_GPIO_output: "steady (GPIO_output pin v)"
  unfolding GPIO_output_def
  by (rule steady_bnd [OF steady_observe]) (rule steadyI, auto)

lemma steady_GPIO_cleanup: "steady GPIO_cleanup"
  unfolding GPIO_cleanup_def
  by (rule steady_bnd [OF steady_observe]) (rule steadyI, auto)

lemma steady_time_sleep: "steady (time_sleep d)"
  unfolding time_sleep_def
  by (rule steady_bnd [OF steady_observe])
     (rule steadyI, auto simp add: raise_def emit_def split: if_splits)

lemma steady_channel_value: "steady channel_value"
  unfolding channel_value_def
  by (rule steady_bnd [OF steady_observe]) (rule steadyI, auto split: option.splits)

lemma steady_read_moisture_percentage: "steady (read_moisture_percentage c)"
  unfolding read_moisture_percentage_def
  by (rule steady_bnd [OF steady_channel_value]) (rule steadyI, auto)

lemma steady_control_pump: "steady (control_pump c state d)"
  unfolding control_pump_def
  by (simp add: steady_bnd steady_py_print steady_time_sleep steady_GPIO_output)

lemma steady_iteration: "steady (iteration c)"
  unfolding iteration_def
  by (simp add: steady_bnd steady_py_print steady_time_sleep steady_channel_value
      steady_read_moisture_percentage steady_control_pump)

text \<open>
  With an interrupt pending the loop ends: every pass that returns brings the interrupt
  nearer, and a pass that raises ends the loop.
\<close>

lemma while_true_ends:
  "signals w = k # ks \<Longrightarrow>
     \<exists>e w1. while_true c w = Some (Inl e, w1) \<and> (e = KeyboardInterrupt \<longrightarrow> signals w1 = ks)
        \<and> sensor w1 = sensor w \<and> stdout w1 = stdout w \<and> sleep_limit w1 = sleep_limit w"
proof (induction k arbitrary: w rule: less_induct)
  case (less k)
  obtain out w' where it: "iteration c w = (out, w')" by (cases "iteration c w")
  note env = steadyD [OF steady_iteration it]
  show ?case
  proof (cases out)
    case (Inl e)
    with it have "while_true c w = Some (Inl e, w')"
      by (subst while_true.simps) simp
    moreover have "e = KeyboardInterrupt \<longrightarrow> signals w' = ks"
      using heeds_Inl [OF heeds_iteration _ less.prems] it Inl by blast
    ultimately show ?thesis using env by blast
  next
    case (Inr u)
    with it have unfold: "while_true c w = while_true c w'"
      by (subst while_true.simps) simp
    from heeds_Inr [OF heeds_iteration _ less.prems] it Inr
    obtain k' where "k' < k" "signals w' = k' # ks" by blast
    from less.IH [OF this] show ?thesis unfolding unfold env .
  qed
qed

section \<open>Healthy surroundings and valid durations leave only the interrupt\<close>

lemma faultlessI:
  assumes "\<And>w e w'. m w = (Inl e, w') \<Longrightarrow> healthy w \<Longrightarrow> L \<le> sleep_limit w \<Longrightarrow> e = KeyboardInterrupt"
  shows "faultless L m"
  unfolding faultless_def using assms by blast

lemma faultless_Inl:
  "faultless L m \<Longrightarrow> m w = (Inl e, w') \<Longrightarrow> healthy w \<Longrightarrow> L \<le> sleep_limit w \<Longrightarrow> e = KeyboardInterrupt"
  unfolding faultless_def by blast

lemma faultless_bnd:
  assumes s: "steady m" and m: "faultless L m" and f: "\<And>x. faultless L (f x)"
  shows "faultless L (bnd m f)"
proof (rule faultlessI)
  fix w e w'
  assume run: "bnd m f w = (Inl e, w')" and ok: "healthy w" and lim: "L \<le> sleep_limit w"
  from run consider "m w = (Inl e, w')" | x w1 where "m w = (Inr x, w1)" "f x w1 = (Inl e, w')"
    unfolding bnd_Inl_iff by blast
  then show "e = KeyboardInterrupt"
  proof cases
    case 1
    from faultless_Inl [OF m 1 ok lim] show ?thesis .
  next
    case 2
    have "healthy w1" using steady_healthy [OF s 2(1)] ok by simp
    moreover have "L \<le> sleep_limit w1" using steadyD(3) [OF s 2(1)] lim by simp
    ultimately show ?thesis by (rule faultless_Inl [OF f 2(2)])
  qed
qed

lemma faultless_py_print: "faultless L (py_print m)"
  by (rule faultlessI) (auto simp add: py_print_Inl_iff healthy_def)

lemma faultless_GPIO_output: "faultless L (GPIO_output pin v)"
  by (rule faultlessI) (auto simp add: GPIO_output_Inl_iff)

lemma faultless_time_sleep: "0 \<le> d \<Longrightarrow> d \<le> L \<Longrightarrow> faultless L (time_sleep d)"
  by (rule faultlessI) (auto simp add: time_sleep_Inl_iff)

lemma faultless_channel_value: "faultless L channel_value"
  by (rule faultlessI) (auto simp add: channel_value_Inl_iff healthy_def simp del: not_None_eq)

lemma faultless_read_moisture_percentage: "faultless L (read_moisture_percentage c)"
  by (rule faultlessI)
     (auto simp add: read_moisture_percentage_Inl_iff channel_value_Inl_iff healthy_def
        simp del: not_None_eq)

lemma faultless_control_pump: "0 \<le> d \<Longrightarrow> d \<le> L \<Longrightarrow> faultless L (control_pump c state d)"
  unfolding control_pump_def
  by (simp add: faultless_bnd faultless_py_print faultless_time_sleep faultless_GPIO_output
      steady_py_print steady_time_sleep steady_GPIO_output)

lemma faultless_iteration:
  assumes "0 \<le> PUMP_TIME_SEC c" "PUMP_TIME_SEC c \<le> L"
    and "0 \<le> CHECK_INTERVAL_SEC c" "CHECK_INTERVAL_SEC c \<le> L"
  shows "faultless L (iteration c)"
  unfolding iteration_def using assms
  by (simp add: faultless_bnd faultless_py_print faultless_time_sleep faultless_channel_value
      faultless_read_moisture_percentage faultless_control_pump
      steady_bnd steady_py_print steady_time_sleep steady_channel_value
      steady_read_moisture_percentage steady_control_pump)

text \<open>
  In healthy surroundings, with durations that are not negative and that the clock can
  represent, a pending interrupt is what ends the loop.
\<close>

lemma working_loop_ends_by_interrupt:
  assumes "0 \<le> PUMP_TIME_SEC c" "PUMP_TIME_SEC c \<le> L"
    and "0 \<le> CHECK_INTERVAL_SEC c" "CHECK_INTERVAL_SEC c \<le> L"
  shows "signals w = k # ks \<Longrightarrow> healthy w \<Longrightarrow> L \<le> sleep_limit w \<Longrightarrow>
           \<exists>w1. while_true c w = Some (Inl KeyboardInterrupt, w1) \<and> signals w1 = ks"
proof (induction k arbitrary: w rule: less_induct)
  case (less k)
  note fl = faultless_iteration [OF assms]
  obtain out w' where it: "iteration c w = (out, w')" by (cases "iteration c w")
  show ?case
  proof (cases out)
    case (Inl e)
    with it have "while_true c w = Some (Inl e, w')"
      by (subst while_true.simps) simp
    moreover have e: "e = KeyboardInterrupt"
      using faultless_Inl [OF fl _ less.prems(2,3)] it Inl by blast
    moreover have "signals w' = ks"
      using heeds_Inl [OF heeds_iteration _ less.prems(1)] it Inl e by blast
    ultimately show ?thesis by blast
  next
    case (Inr u)
    with it have unfold: "while_true c w = while_true c w'"
      by (subst while_true.simps) simp
    from heeds_Inr [OF heeds_iteration _ less.prems(1)] it Inr
    obtain k' where k': "k' < k" "signals w' = k' # ks" by blast
    have "healthy w'" using steady_healthy [OF steady_iteration it] less.prems(2) by simp
    moreover have "L \<le> sleep_limit w'"
      using steadyD(3) [OF steady_iteration it] less.prems(3) by simp
    ultimately show ?thesis using less.IH [OF k'] unfolding unfold by blast
  qed
qed

section \<open>Teardown\<close>

text \<open>
  With no interrupt pending and a standard output that takes every line, every operation
  of the teardown completes.
\<close>

lemma quiet_py_print:
  "signals w = [] \<Longrightarrow> \<forall>n. stdout w n \<Longrightarrow>
     \<exists>w'. py_print m w = (Inr (), w') \<and> signals w' = [] \<and> stdout w' = stdout w
        \<and> sleep_limit w' = sleep_limit w \<and> gpio w' = gpio w \<and> trace w' = trace w @ [Print m]"
  by (simp add: py_print_def bnd_def observe_def)

lemma quiet_GPIO_output:
  "signals w = [] \<Longrightarrow>
     \<exists>w'. GPIO_output pin v w = (Inr (), w') \<and> signals w' = [] \<and> stdout w' = stdout w
        \<and> sleep_limit w' = sleep_limit w
        \<and> gpio w' = (gpio w)(pin \<mapsto> v) \<and> trace w' = trace w @ [Output pin v]"
  by (simp add: GPIO_output_def bnd_def observe_def)

lemma quiet_GPIO_cleanup:
  "signals w = [] \<Longrightarrow>
     \<exists>w'. GPIO_cleanup w = (Inr (), w') \<and> signals w' = [] \<and> stdout w' = stdout w
        \<and> gpio w' = Map.empty \<and> trace w' = trace w @ [Released]"
  by (simp add: GPIO_cleanup_def bnd_def observe_def)

lemma quiet_time_sleep:
  "signals w = [] \<Longrightarrow> 0 \<le> d \<Longrightarrow> d \<le> sleep_limit w \<Longrightarrow>
     \<exists>w'. time_sleep d w = (Inr (), w') \<and> signals w' = [] \<and> stdout w' = stdout w
        \<and> sleep_limit w' = sleep_limit w \<and> gpio w' = gpio w \<and> trace w' = trace w @ [Sleep d]"
  by (simp add: time_sleep_def bnd_def observe_def emit_def)

lemma quiet_cleanup:
  assumes "signals w = []" and "\<forall>n. stdout w n"
  shows "\<exists>w'. cleanup c w = (Inr (), w')
           \<and> trace w' = trace w @ [Print Cleaning_up, Output (RELAY_PIN c) HIGH, Released, Print Shutdown_done]"
proof -
  from quiet_py_print [OF assms] obtain w1 where
    1: "py_print Cleaning_up w = (Inr (), w1)" "signals w1 = []" "stdout w1 = stdout w"
       "trace w1 = trace w @ [Print Cleaning_up]"
    by blast
  from quiet_GPIO_output [OF 1(2)] obtain w2 where
    2: "GPIO_output (RELAY_PIN c) HIGH w1 = (Inr (), w2)" "signals w2 = []" "stdout w2 = stdout w1"
       "trace w2 = trace w1 @ [Output (RELAY_PIN c) HIGH]"
    by blast
  from quiet_GPIO_cleanup [OF 2(2)] obtain w3 where
    3: "GPIO_cleanup w2 = (Inr (), w3)" "signals w3 = []" "stdout w3 = stdout w2"
       "trace w3 = trace w2 @ [Released]"
    by blast
  have "\<forall>n. stdout w3 n" using assms(2) 1(3) 2(3) 3(3) by simp
  from quiet_py_print [OF 3(2) this] obtain w4 where
    4: "py_print Shutdown_done w3 = (Inr (), w4)" "trace w4 = trace w3 @ [Print Shutdown_done]"
    by blast
  have "cleanup c w = (Inr (), w4)"
    using 1(1) 2(1) 3(1) 4(1) by (simp add: cleanup_def deactivate_def control_pump_def bnd_def)
  moreover have "trace w4 = trace w @ [Print Cleaning_up, Output (RELAY_PIN c) HIGH, Released, Print Shutdown_done]"
    using 1(4) 2(4) 3(4) 4(2) by simp
  ultimately show ?thesis by blast
qed

lemma teardown_after_interrupt:
  assumes "signals w1 = []" and "\<forall>n. stdout w1 n"
  shows "\<exists>w'. py_finally (cleanup c)
                (except_KeyboardInterrupt (py_print Stopped_by_user) (Inl KeyboardInterrupt, w1)) = (Inr (), w')
           \<and> trace w' = trace w1 @ [Print Stopped_by_user, Print Cleaning_up, Output (RELAY_PIN c) HIGH,
                                     Released, Print Shutdown_done]"
proof -
  from quiet_py_print [OF assms] obtain w2 where
    1: "py_print Stopped_by_user w1 = (Inr (), w2)" "signals w2 = []" "stdout w2 = stdout w1"
       "trace w2 = trace w1 @ [Print Stopped_by_user]"
    by blast
  have "\<forall>n. stdout w2 n" using assms(2) 1(3) by simp
  from quiet_cleanup [OF 1(2) this] obtain w3 where
    2: "cleanup c w2 = (Inr (), w3)"
       "trace w3 = trace w2 @ [Print Cleaning_up, Output (RELAY_PIN c) HIGH, Released, Print Shutdown_done]"
    by blast
  have "py_finally (cleanup c)
          (except_KeyboardInterrupt (py_print Stopped_by_user) (Inl KeyboardInterrupt, w1)) = (Inr (), w3)"
    using 1(1) 2(1) by (simp add: py_finally_def except_KeyboardInterrupt_def)
  moreover have "trace w3 = trace w1 @ [Print Stopped_by_user, Print Cleaning_up, Output (RELAY_PIN c) HIGH,
                                     Released, Print Shutdown_done]"
    using 1(4) 2(2) by simp
  ultimately show ?thesis by blast
qed

lemma last_written_teardown:
  "last_written pin (evs @ [Print Stopped_by_user, Print Cleaning_up, Output pin HIGH,
                            Released, Print Shutdown_done]) = Some HIGH"
  by (simp add: last_written_def)

lemma teardown_after_fault:
  assumes "signals w1 = []" and "\<forall>n. stdout w1 n" and "e \<noteq> KeyboardInterrupt"
  shows "\<exists>w'. py_finally (cleanup c)
                (except_KeyboardInterrupt (py_print Stopped_by_user) (Inl e, w1)) = (Inl e, w')
           \<and> trace w' = trace w1 @ [Print Cleaning_up, Output (RELAY_PIN c) HIGH,
                                     Released, Print Shutdown_done]"
proof -
  from quiet_cleanup [OF assms(1,2)] obtain w3 where
    2: "cleanup c w1 = (Inr (), w3)"
       "trace w3 = trace w1 @ [Print Cleaning_up, Output (RELAY_PIN c) HIGH, Released, Print Shutdown_done]"
    by blast
  have "except_KeyboardInterrupt (py_print Stopped_by_user) (Inl e, w1) = (Inl e, w1)"
    using assms(3) by (cases e) (simp_all add: except_KeyboardInterrupt_def)
  then have "py_finally (cleanup c)
          (except_KeyboardInterrupt (py_print Stopped_by_user) (Inl e, w1)) = (Inl e, w3)"
    using 2(1) by (simp add: py_finally_def)
  with 2(2) show ?thesis by blast
qed

text \<open>
  Every exit of the loop runs the teardown when no interrupt arrives during it and its
  lines can be printed: the relay pin is driven \<open>HIGH\<close>, then the pins are released.
\<close>

lemma every_exit_runs_teardown:
  assumes "while_true c w = Some (Inl e, w1)" and "signals w1 = []" and "\<forall>n. stdout w1 n"
  shows "\<exists>w'. main_loop c w = Some (if e = KeyboardInterrupt then Inr () else Inl e, w')
           \<and> trace w' = trace w1 @ (if e = KeyboardInterrupt then [Print Stopped_by_user] else [])
                          @ [Print Cleaning_up, Output (RELAY_PIN c) HIGH, Released, Print Shutdown_done]"
proof (cases "e = KeyboardInterrupt")
  case True
  from teardown_after_interrupt [OF assms(2,3), of c] assms(1) True show ?thesis
    by (auto simp add: main_loop_def)
next
  case False
  from teardown_after_fault [OF assms(2,3) False, of c] assms(1) False show ?thesis
    by (auto simp add: main_loop_def)
qed

text \<open>
  One stop signal and a standard output that takes every line: \<^verbatim>\<open>main_loop\<close>
  returns; whenever the loop was left by that \<^verbatim>\<open>KeyboardInterrupt\<close>, the handler and
  the whole teardown have run after it and the last level written to the relay pin is
  \<open>HIGH\<close>; and the loop is left by that \<^verbatim>\<open>KeyboardInterrupt\<close> whenever no
  conversion fails and the two durations are not negative and within the clock's range.
\<close>

lemma single_stop_signal_forces_relay_off:
  assumes "signals w = [k]" and "\<forall>n. stdout w n"
  shows "(\<exists>out w'. main_loop c w = Some (out, w') \<and>
           (\<forall>w1. while_true c w = Some (Inl KeyboardInterrupt, w1) \<longrightarrow>
                out = Inr ()
                \<and> trace w' = trace w1 @ [Print Stopped_by_user, Print Cleaning_up,
                                         Output (RELAY_PIN c) HIGH, Released, Print Shutdown_done]
                \<and> last_written (RELAY_PIN c) (trace w') = Some HIGH))
         \<and> ((\<forall>n. sensor w n \<noteq> None)
              \<and> 0 \<le> PUMP_TIME_SEC c \<and> PUMP_TIME_SEC c \<le> sleep_limit w
              \<and> 0 \<le> CHECK_INTERVAL_SEC c \<and> CHECK_INTERVAL_SEC c \<le> sleep_limit w \<longrightarrow>
              (\<exists>w1. while_true c w = Some (Inl KeyboardInterrupt, w1)))"
proof (intro conjI impI)
  from while_true_ends [OF assms(1), of c] obtain e w1 where
    loop: "while_true c w = Some (Inl e, w1)" and sig: "e = KeyboardInterrupt \<longrightarrow> signals w1 = []"
    and out: "stdout w1 = stdout w"
    by blast
  have prt: "\<forall>n. stdout w1 n" using assms(2) out by simp
  obtain out w' where main: "main_loop c w = Some (out, w')"
    using loop by (cases "the (main_loop c w)") (simp add: main_loop_def)
  have "out = Inr ()
        \<and> trace w' = trace w1 @ [Print Stopped_by_user, Print Cleaning_up,
                                 Output (RELAY_PIN c) HIGH, Released, Print Shutdown_done]
        \<and> last_written (RELAY_PIN c) (trace w') = Some HIGH"
    if "e = KeyboardInterrupt"
  proof -
    from that sig have "signals w1 = []" by simp
    from every_exit_runs_teardown [OF loop this prt] main that
    have "out = Inr ()" and tr: "trace w' = trace w1 @ [Print Stopped_by_user, Print Cleaning_up,
                                 Output (RELAY_PIN c) HIGH, Released, Print Shutdown_done]"
      by auto
    then show ?thesis by (simp add: last_written_teardown)
  qed
  with main loop show "\<exists>out w'. main_loop c w = Some (out, w') \<and>
           (\<forall>w1. while_true c w = Some (Inl KeyboardInterrupt, w1) \<longrightarrow>
                out = Inr ()
                \<and> trace w' = trace w1 @ [Print Stopped_by_user, Print Cleaning_up,
                                         Output (RELAY_PIN c) HIGH, Released, Print Shutdown_done]
                \<and> last_written (RELAY_PIN c) (trace w') = Some HIGH)"
    by auto
next
  assume h: "(\<forall>n. sensor w n \<noteq> None)
              \<and> 0 \<le> PUMP_TIME_SEC c \<and> PUMP_TIME_SEC c \<le> sleep_limit w
              \<and> 0 \<le> CHECK_INTERVAL_SEC c \<and> CHECK_INTERVAL_SEC c \<le> sleep_limit w"
  then have "healthy w" using assms(2) by (simp add: healthy_def)
  with h show "\<exists>w1. while_true c w = Some (Inl KeyboardInterrupt, w1)"
    using working_loop_ends_by_interrupt [of c "sleep_limit w" w k "[]"] assms(1) by blast
qed

section \<open>One pass of the loop\<close>

text \<open>
  Claim C2. In every pass of the loop that runs to its end, the percentage that
  \<^verbatim>\<open>read_moisture_percentage\<close> has computed from its sample (a float) decides: below
  the threshold the pump is run exactly once, for \<^verbatim>\<open>PUMP_TIME_SEC\<close> (one call of
  \<^verbatim>\<open>control_pump(True, PUMP_TIME_SEC)\<close>, one \<open>LOW\<close> written to the relay pin); at or
  above the threshold the pass contains no pump run, no \<open>LOW\<close> written to any pin and
  no call of \<^verbatim>\<open>control_pump(True, ...)\<close>.
\<close>

theorem iteration_actuates_below_threshold:
  assumes "iteration c w = (Inr u, w')"
  shows "\<exists>raw moisture evs.
           sensor w (reads w) = Some raw \<and> moisture_percentage c raw = Inr moisture
           \<and> trace w' = trace w @ evs
           \<and> (moisture < THRESHOLD_PERCENT c \<longrightarrow>
                pump_runs (RELAY_PIN c) evs = [PUMP_TIME_SEC c]
                \<and> count_list evs (Output (RELAY_PIN c) LOW) = 1
                \<and> count_list evs (Print (Pump_starting (PUMP_TIME_SEC c))) = 1)
           \<and> (THRESHOLD_PERCENT c \<le> moisture \<longrightarrow>
                pump_runs (RELAY_PIN c) evs = []
                \<and> (\<forall>p. count_list evs (Output p LOW) = 0)
                \<and> (\<forall>d. count_list evs (Print (Pump_starting d)) = 0))"
proof -
  from iteration_Inr [OF assms] obtain r1 r2 m where
    r1: "sensor w (reads w) = Some r1" "moisture_percentage c r1 = Inr m"
    and tr: "trace w' = trace w @ [Read r1, Read r2, Print (Status m r2)] @
               (if m < THRESHOLD_PERCENT c
                then [Print (Below_threshold (THRESHOLD_PERCENT c)), Print (Pump_starting (PUMP_TIME_SEC c)),
                      Output (RELAY_PIN c) LOW, Sleep (PUMP_TIME_SEC c), Output (RELAY_PIN c) HIGH,
                      Print Pump_off]
                else [Print Moisture_ok]) @
               [Print (Next_check (CHECK_INTERVAL_SEC c)), Print Separator, Sleep (CHECK_INTERVAL_SEC c)]"
    by blast
  show ?thesis
  proof (cases "m < THRESHOLD_PERCENT c")
    case True
    with r1 tr show ?thesis
      by (intro exI [of _ r1] exI [of _ m]
          exI [of _ "[Read r1, Read r2, Print (Status m r2),
                      Print (Below_threshold (THRESHOLD_PERCENT c)), Print (Pump_starting (PUMP_TIME_SEC c)),
                      Output (RELAY_PIN c) LOW, Sleep (PUMP_TIME_SEC c), Output (RELAY_PIN c) HIGH,
                      Print Pump_off,
                      Print (Next_check (CHECK_INTERVAL_SEC c)), Print Separator,
                      Sleep (CHECK_INTERVAL_SEC c)]"]) simp
  next
    case False
    with r1 tr show ?thesis
      by (intro exI [of _ r1] exI [of _ m]
          exI [of _ "[Read r1, Read r2, Print (Status m r2), Print Moisture_ok,
                      Print (Next_check (CHECK_INTERVAL_SEC c)), Print Separator,
                      Sleep (CHECK_INTERVAL_SEC c)]"]) simp
  qed
qed

text \<open>
  Every pass of the loop that runs to its end takes two samples from the converter: the
  percentage of the status line is computed from the first, and the raw value of the
  status line is the second.
\<close>

lemma iteration_reads_twice:
  assumes "iteration c w = (Inr u, w')"
  shows "\<exists>r1 r2 m evs.
           sensor w (reads w) = Some r1 \<and> sensor w (Suc (reads w)) = Some r2
           \<and> reads w' = reads w + 2
           \<and> moisture_percentage c r1 = Inr m
           \<and> trace w' = trace w @ evs \<and> samples evs = [r1, r2] \<and> statuses evs = [(m, r2)]"
proof -
  from iteration_Inr [OF assms] obtain r1 r2 m where
    r: "sensor w (reads w) = Some r1" "sensor w (Suc (reads w)) = Some r2"
       "moisture_percentage c r1 = Inr m" "reads w' = reads w + 2"
    and tr: "trace w' = trace w @ [Read r1, Read r2, Print (Status m r2)] @
               (if m < THRESHOLD_PERCENT c
                then [Print (Below_threshold (THRESHOLD_PERCENT c)), Print (Pump_starting (PUMP_TIME_SEC c)),
                      Output (RELAY_PIN c) LOW, Sleep (PUMP_TIME_SEC c), Output (RELAY_PIN c) HIGH,
                      Print Pump_off]
                else [Print Moisture_ok]) @
               [Print (Next_check (CHECK_INTERVAL_SEC c)), Print Separator, Sleep (CHECK_INTERVAL_SEC c)]"
    by blast
  let ?evs = "[Read r1, Read r2, Print (Status m r2)] @
               (if m < THRESHOLD_PERCENT c
                then [Print (Below_threshold (THRESHOLD_PERCENT c)), Print (Pump_starting (PUMP_TIME_SEC c)),
                      Output (RELAY_PIN c) LOW, Sleep (PUMP_TIME_SEC c), Output (RELAY_PIN c) HIGH,
                      Print Pump_off]
                else [Print Moisture_ok]) @
               [Print (Next_check (CHECK_INTERVAL_SEC c)), Print Separator, Sleep (CHECK_INTERVAL_SEC c)]"
  have "samples ?evs = [r1, r2]" "statuses ?evs = [(m, r2)]" by simp_all
  with r tr show ?thesis by blast
qed

section \<open>The pump\<close>

lemma quiet_control_pump_on:
  assumes "signals w = []" and "\<forall>n. stdout w n" and "0 \<le> d" and "d \<le> sleep_limit w"
  shows "\<exists>w'. control_pump c True d w = (Inr (), w')"
proof -
  from quiet_py_print [OF assms(1,2)] obtain w1 where
    1: "py_print (Pump_starting d) w = (Inr (), w1)" "signals w1 = []" "stdout w1 = stdout w"
       "sleep_limit w1 = sleep_limit w" by blast
  from quiet_GPIO_output [OF 1(2)] obtain w2 where
    2: "GPIO_output (RELAY_PIN c) LOW w1 = (Inr (), w2)" "signals w2 = []" "stdout w2 = stdout w1"
       "sleep_limit w2 = sleep_limit w1" by blast
  have "d \<le> sleep_limit w2" using assms(4) 1(4) 2(4) by simp
  from quiet_time_sleep [OF 2(2) assms(3) this] obtain w3 where
    3: "time_sleep d w2 = (Inr (), w3)" "signals w3 = []" "stdout w3 = stdout w2" by blast
  from quiet_GPIO_output [OF 3(2)] obtain w4 where
    4: "GPIO_output (RELAY_PIN c) HIGH w3 = (Inr (), w4)" "signals w4 = []" "stdout w4 = stdout w3"
    by blast
  have "\<forall>n. stdout w4 n" using assms(2) 1(3) 2(3) 3(3) 4(3) by simp
  from quiet_py_print [OF 4(2) this] obtain w5 where
    5: "py_print Pump_off w4 = (Inr (), w5)" by blast
  have "control_pump c True d w = (Inr (), w5)"
    using 1(1) 2(1) 3(1) 4(1) 5 by (simp add: control_pump_def bnd_def)
  then show ?thesis ..
qed

text \<open>
  Claim C8. For a duration \<open>d\<close> that is not negative, whenever
  \<^verbatim>\<open>control_pump(True, d)\<close> returns, the relay pin is driven \<open>HIGH\<close>: it has written
  \<open>LOW\<close>, slept for \<open>d\<close>, and written \<open>HIGH\<close>. It does return when no interrupt
  arrives, its lines can be printed and the clock can represent \<open>d\<close>.
\<close>

theorem activate_returns_with_relay_off:
  assumes "0 \<le> d"
  shows "(signals w = [] \<and> (\<forall>n. stdout w n) \<and> d \<le> sleep_limit w \<longrightarrow>
            (\<exists>w'. control_pump c True d w = (Inr (), w')))
         \<and> (\<forall>w'. control_pump c True d w = (Inr (), w') \<longrightarrow>
               gpio w' (RELAY_PIN c) = Some HIGH
               \<and> trace w' = trace w @ [Print (Pump_starting d), Output (RELAY_PIN c) LOW, Sleep d,
                                       Output (RELAY_PIN c) HIGH, Print Pump_off]
               \<and> last_written (RELAY_PIN c) (trace w') = Some HIGH)"
proof (intro conjI impI allI)
  assume "signals w = [] \<and> (\<forall>n. stdout w n) \<and> d \<le> sleep_limit w"
  then show "\<exists>w'. control_pump c True d w = (Inr (), w')"
    using assms quiet_control_pump_on [of w d c] by blast
next
  fix w' assume run: "control_pump c True d w = (Inr (), w')"
  show "gpio w' (RELAY_PIN c) = Some HIGH"
    by (simp add: control_pump_on_Inr(3) [OF run])
  show tr: "trace w' = trace w @ [Print (Pump_starting d), Output (RELAY_PIN c) LOW, Sleep d,
                                       Output (RELAY_PIN c) HIGH, Print Pump_off]"
    by (rule control_pump_on_Inr(4) [OF run])
  show "last_written (RELAY_PIN c) (trace w') = Some HIGH"
    unfolding tr by (simp add: last_written_def)
qed

lemma deactivate_Inr_iff:
  "deactivate c w = (Inr u, w') \<longleftrightarrow>
     \<not> due (signals w) \<and>
     w' = w\<lparr>signals := elapse (signals w), gpio := (gpio w)(RELAY_PIN c \<mapsto> HIGH),
            trace := trace w @ [Output (RELAY_PIN c) HIGH]\<rparr>"
  by (simp add: deactivate_def control_pump_def GPIO_output_Inr_iff)

text \<open>
  Claim C9. \<^verbatim>\<open>control_pump(False)\<close> returns when no interrupt arrives; whatever the
  pins were driven to before, after one call the relay pin is driven \<open>HIGH\<close>, a second
  call leaves every pin as the first call left it, and a call on a relay pin that is
  already \<open>HIGH\<close> changes no pin.
\<close>

theorem deactivate_idempotent:
  "(signals w = [] \<longrightarrow> (\<exists>w1 w2. deactivate c w = (Inr (), w1) \<and> deactivate c w1 = (Inr (), w2)))
   \<and> (\<forall>w1 w2. deactivate c w = (Inr (), w1) \<and> deactivate c w1 = (Inr (), w2) \<longrightarrow>
         gpio w1 (RELAY_PIN c) = Some HIGH \<and> gpio w2 (RELAY_PIN c) = Some HIGH \<and> gpio w2 = gpio w1
         \<and> (gpio w (RELAY_PIN c) = Some HIGH \<longrightarrow> gpio w1 = gpio w))"
  by (auto simp add: deactivate_Inr_iff)

section \<open>Sample runs\<close>

lemmas run_defs = iteration_def read_moisture_percentage_def channel_value_def bnd_def observe_def
  py_print_def emit_def GPIO_output_def GPIO_cleanup_def time_sleep_def raise_def control_pump_def
  deactivate_def cleanup_def started_def module_constants_def threshold_29_def
  moisture_percentage_def branch_of_def truediv_def float_mul_def
  dry_sensor_def steady_sensor_def edge_sensor_def failing_sensor_def
  working_stdout_def stdout_until_def due_Cons
  b64_half b64_fifty b64_quarter b64_twenty_five b64_029 b64_029_scaled

text \<open>
  In dry soil, an interrupt that is observed after six operations arrives while the pump
  is running: the relay pin is \<open>LOW\<close> when the loop is left.
\<close>

lemma interrupted_run:
  "\<exists>w1. while_true module_constants (started module_constants dry_sensor [6])
            = Some (Inl KeyboardInterrupt, w1)
        \<and> trace w1 = [Read 22500, Read 22500, Print (Status 25 22500), Print (Below_threshold 40),
                      Print (Pump_starting 3), Output 17 LOW]
        \<and> gpio w1 17 = Some LOW"
  by (subst while_true.simps) (simp add: run_defs)

lemma dry_pass:
  "fst (iteration module_constants (started module_constants dry_sensor [])) = Inr ()"
  by (simp add: run_defs)

lemma steady_pass:
  "fst (iteration module_constants (started module_constants steady_sensor [])) = Inr ()"
  by (simp add: run_defs)

text \<open>
  With the threshold at \<open>29\<close>, the reading \<open>22100\<close> gives the float just below
  \<open>29\<close>, and the pump runs.
\<close>

lemma edge_percentage:
  "moisture_percentage threshold_29 22100 = Inr (8162774324609023 / 281474976710656)"
  by (simp add: run_defs)

lemma edge_pass:
  "fst (iteration threshold_29 (started threshold_29 edge_sensor [])) = Inr ()"
  by (simp add: run_defs)

text \<open>A converter that fails at once: the loop is left by \<^verbatim>\<open>OSError\<close>.\<close>

lemma failing_run:
  "\<exists>w1. while_true module_constants (started module_constants failing_sensor [])
            = Some (Inl OSError, w1)
        \<and> signals w1 = [] \<and> trace w1 = []"
  by (subst while_true.simps) (simp add: run_defs)

text \<open>
  Two interrupts, the first while the pump runs and the second one operation later: the
  second is raised by the first \<^verbatim>\<open>print\<close> of \<^verbatim>\<open>cleanup\<close>.
\<close>

lemma twice_interrupted_loop:
  "while_true module_constants (started module_constants dry_sensor [6, 1])
     = Some (Inl KeyboardInterrupt,
             \<lparr>sensor = dry_sensor, stdout = working_stdout, sleep_limit = 9223372036,
              signals = [1], reads = 2, prints = 3, gpio = [17 \<mapsto> LOW],
              trace = [Read 22500, Read 22500, Print (Status 25 22500), Print (Below_threshold 40),
                       Print (Pump_starting 3), Output 17 LOW]\<rparr>)"
  by (subst while_true.simps) (simp add: run_defs)

text \<open>
  Claim C1 (whenever a stop signal is observed in the loop, the relay pin is driven
  \<open>HIGH\<close> before the process exits) is what \<^verbatim>\<open>try ... finally: cleanup()\<close> is
  written for, and the program misses it on this run: the first stop signal interrupts
  the sleep of a pump run, the handler prints its line, a second stop signal is raised
  by the first \<^verbatim>\<open>print\<close> of \<^verbatim>\<open>cleanup\<close>, before \<^verbatim>\<open>control_pump(False)\<close>, and
  \<^verbatim>\<open>main_loop\<close> is left by \<^verbatim>\<open>KeyboardInterrupt\<close> with \<open>LOW\<close> the last level
  written to the relay pin.
\<close>

theorem second_interrupt_leaves_relay_low:
  "map_option fst (while_true module_constants (started module_constants dry_sensor [6, 1]))
     = Some (Inl KeyboardInterrupt)
   \<and> map_option fst (main_loop module_constants (started module_constants dry_sensor [6, 1]))
     = Some (Inl KeyboardInterrupt)
   \<and> map_option (trace \<circ> snd) (main_loop module_constants (started module_constants dry_sensor [6, 1]))
     = Some [Read 22500, Read 22500, Print (Status 25 22500), Print (Below_threshold 40),
             Print (Pump_starting 3), Output 17 LOW, Print Stopped_by_user]
   \<and> map_option (last_written 17 \<circ> trace \<circ> snd)
        (main_loop module_constants (started module_constants dry_sensor [6, 1])) = Some (Some LOW)"
  unfolding main_loop_def twice_interrupted_loop
  by (simp add: run_defs py_finally_def except_KeyboardInterrupt_def last_written_def)

text \<open>
  The same happens with one stop signal when the standard output is gone by then: the
  \<^verbatim>\<open>print\<close> of the handler raises, and so does the first \<^verbatim>\<open>print\<close> of
  \<^verbatim>\<open>cleanup\<close>.
\<close>

lemma interrupted_loop_without_stdout:
  "while_true module_constants (started module_constants dry_sensor [6]\<lparr>stdout := stdout_until 3\<rparr>)
     = Some (Inl KeyboardInterrupt,
             \<lparr>sensor = dry_sensor, stdout = stdout_until 3, sleep_limit = 9223372036,
              signals = [], reads = 2, prints = 3, gpio = [17 \<mapsto> LOW],
              trace = [Read 22500, Read 22500, Print (Status 25 22500), Print (Below_threshold 40),
                       Print (Pump_starting 3), Output 17 LOW]\<rparr>)"
  by (subst while_true.simps) (simp add: run_defs)

lemma broken_stdout_leaves_relay_low:
  "map_option fst
     (main_loop module_constants (started module_constants dry_sensor [6]\<lparr>stdout := stdout_until 3\<rparr>))
     = Some (Inl BrokenPipeError)
   \<and> map_option (last_written 17 \<circ> trace \<circ> snd)
        (main_loop module_constants (started module_constants dry_sensor [6]\<lparr>stdout := stdout_until 3\<rparr>))
     = Some (Some LOW)"
  unfolding main_loop_def interrupted_loop_without_stdout
  by (simp add: run_defs py_finally_def except_KeyboardInterrupt_def last_written_def)

text \<open>With one stop signal and a working standard output the relay pin ends \<open>HIGH\<close>.\<close>

lemma single_stop_signal_run:
  "signals (started module_constants dry_sensor [6]) = [6]
   \<and> map_option fst (main_loop module_constants (started module_constants dry_sensor [6])) = Some (Inr ())
   \<and> map_option (trace \<circ> snd) (main_loop module_constants (started module_constants dry_sensor [6]))
       = Some [Read 22500, Read 22500, Print (Status 25 22500), Print (Below_threshold 40),
               Print (Pump_starting 3), Output 17 LOW,
               Print Stopped_by_user, Print Cleaning_up, Output 17 HIGH, Released, Print Shutdown_done]
   \<and> map_option (last_written 17 \<circ> trace \<circ> snd)
        (main_loop module_constants (started module_constants dry_sensor [6])) = Some (Some HIGH)"
proof -
  have s: "signals (started module_constants dry_sensor [6]) = [6]"
    and p: "\<forall>n. stdout (started module_constants dry_sensor [6]) n"
    by (simp_all add: started_def working_stdout_def)
  from single_stop_signal_forces_relay_off [OF s p, of module_constants] obtain out w' where
    main: "main_loop module_constants (started module_constants dry_sensor [6]) = Some (out, w')"
    and after: "\<And>w1. while_true module_constants (started module_constants dry_sensor [6])
                    = Some (Inl KeyboardInterrupt, w1) \<Longrightarrow>
              out = Inr ()
              \<and> trace w' = trace w1 @ [Print Stopped_by_user, Print Cleaning_up,
                                       Output (RELAY_PIN module_constants) HIGH, Released,
                                       Print Shutdown_done]
              \<and> last_written (RELAY_PIN module_constants) (trace w') = Some HIGH"
    by blast
  from interrupted_run obtain w1 where
    loop: "while_true module_constants (started module_constants dry_sensor [6])
             = Some (Inl KeyboardInterrupt, w1)"
    and tr: "trace w1 = [Read 22500, Read 22500, Print (Status 25 22500), Print (Below_threshold 40),
                         Print (Pump_starting 3), Output 17 LOW]"
    by blast
  from after [OF loop] tr main s show ?thesis
    by (simp add: module_constants_def last_written_def)
qed

theorem iteration_actuates_below_threshold_witness:
  "fst (iteration threshold_29 (started threshold_29 edge_sensor [])) = Inr ()
   \<and> moisture_percentage threshold_29 22100 = Inr (8162774324609023 / 281474976710656)
   \<and> pump_runs 17 (trace (snd (iteration threshold_29 (started threshold_29 edge_sensor [])))) = [3]
   \<and> fst (iteration module_constants (started module_constants steady_sensor [])) = Inr ()
   \<and> moisture_percentage module_constants 20000 = Inr 50
   \<and> pump_runs 17 (trace (snd (iteration module_constants (started module_constants steady_sensor [])))) = []"
proof -
  have edge: "iteration threshold_29 (started threshold_29 edge_sensor [])
               = (Inr (), snd (iteration threshold_29 (started threshold_29 edge_sensor [])))"
    using edge_pass by (metis prod.collapse)
  have steady: "iteration module_constants (started module_constants steady_sensor [])
               = (Inr (), snd (iteration module_constants (started module_constants steady_sensor [])))"
    using steady_pass by (metis prod.collapse)
  have m1: "moisture_percentage threshold_29 22100 = Inr (8162774324609023 / 281474976710656)"
    by (rule edge_percentage)
  have m2: "moisture_percentage module_constants 20000 = Inr 50"
    by (simp add: run_defs)
  from iteration_actuates_below_threshold [OF edge] m1
  have "pump_runs 17 (trace (snd (iteration threshold_29 (started threshold_29 edge_sensor [])))) = [3]"
    by (auto simp add: started_def edge_sensor_def threshold_29_def module_constants_def)
  moreover from iteration_actuates_below_threshold [OF steady] m2
  have "pump_runs 17 (trace (snd (iteration module_constants (started module_constants steady_sensor [])))) = []"
    by (auto simp add: started_def steady_sensor_def module_constants_def)
  ultimately show ?thesis using edge_pass steady_pass m1 m2 by simp
qed

text \<open>
  Claim C3 (one sample in each pass, and the status line's percentage and raw value from
  that one sample) is what the status line is written for, and the program misses it:
  \<^verbatim>\<open>main_loop\<close> evaluates \<^verbatim>\<open>channel.value\<close> again after
  \<^verbatim>\<open>read_moisture_percentage()\<close>. On a converter whose first sample is wet and whose
  second is dry the pass takes two samples, and its status line pairs the percentage
  \<open>100\<close> of the first with the raw value \<open>26000\<close> of the second, whose own
  percentage is \<open>0\<close>.
\<close>

theorem status_line_pairs_two_samples:
  "fst (iteration module_constants (started module_constants drying_sensor [])) = Inr ()
   \<and> reads (snd (iteration module_constants (started module_constants drying_sensor []))) = 2
   \<and> samples (trace (snd (iteration module_constants (started module_constants drying_sensor []))))
       = [14000, 26000]
   \<and> statuses (trace (snd (iteration module_constants (started module_constants drying_sensor []))))
       = [(100, 26000)]
   \<and> moisture_percentage module_constants 26000 = Inr 0"
  by (simp add: run_defs)

theorem activate_returns_with_relay_off_witness:
  "(0::real) \<le> 3
   \<and> signals (started module_constants steady_sensor []) = []
   \<and> fst (control_pump module_constants True 3 (started module_constants steady_sensor [])) = Inr ()
   \<and> gpio (snd (control_pump module_constants True 3 (started module_constants steady_sensor []))) 17
       = Some HIGH
   \<and> trace (snd (control_pump module_constants True 3 (started module_constants steady_sensor [])))
       = [Print (Pump_starting 3), Output 17 LOW, Sleep 3, Output 17 HIGH, Print Pump_off]"
proof -
  have d: "(0::real) \<le> 3" by simp
  have s: "signals (started module_constants steady_sensor []) = []"
    and p: "\<forall>n. stdout (started module_constants steady_sensor []) n"
    and l: "3 \<le> sleep_limit (started module_constants steady_sensor [])"
    by (simp_all add: started_def working_stdout_def)
  note inst = activate_returns_with_relay_off [OF d, of "started module_constants steady_sensor []" module_constants]
  from inst s p l obtain w' where
    run: "control_pump module_constants True 3 (started module_constants steady_sensor []) = (Inr (), w')"
    by blast
  with inst have "gpio w' (RELAY_PIN module_constants) = Some HIGH"
    and "trace w' = trace (started module_constants steady_sensor []) @
           [Print (Pump_starting 3), Output (RELAY_PIN module_constants) LOW, Sleep 3,
            Output (RELAY_PIN module_constants) HIGH, Print Pump_off]"
    by blast+
  with run s show ?thesis by (simp add: started_def module_constants_def)
qed

theorem deactivate_idempotent_witness:
  "signals (started module_constants steady_sensor []\<lparr>gpio := [17 \<mapsto> LOW]\<rparr>) = []
   \<and> fst (deactivate module_constants (started module_constants steady_sensor []\<lparr>gpio := [17 \<mapsto> LOW]\<rparr>))
       = Inr ()
   \<and> fst (deactivate module_constants
            (snd (deactivate module_constants (started module_constants steady_sensor []\<lparr>gpio := [17 \<mapsto> LOW]\<rparr>))))
       = Inr ()
   \<and> gpio (snd (deactivate module_constants (started module_constants steady_sensor []\<lparr>gpio := [17 \<mapsto> LOW]\<rparr>))) 17
       = Some HIGH
   \<and> gpio (snd (deactivate module_constants
            (snd (deactivate module_constants (started module_constants steady_sensor []\<lparr>gpio := [17 \<mapsto> LOW]\<rparr>)))))
       = gpio (snd (deactivate module_constants (started module_constants steady_sensor []\<lparr>gpio := [17 \<mapsto> LOW]\<rparr>)))"
proof -
  define w where "w = started module_constants steady_sensor []\<lparr>gpio := [17 \<mapsto> LOW]\<rparr>"
  have s: "signals w = []" by (simp add: w_def started_def)
  note inst = deactivate_idempotent [of w module_constants]
  from inst s obtain w1 w2 where
    run: "deactivate module_constants w = (Inr (), w1)" "deactivate module_constants w1 = (Inr (), w2)"
    by blast
  with inst have "gpio w1 (RELAY_PIN module_constants) = Some HIGH" "gpio w2 = gpio w1"
    by blast+
  with run s show ?thesis unfolding w_def [symmetric] by (simp add: module_constants_def)
qed

text \<open>
  A sleep of \<open>10 ^ 10\<close> seconds is beyond the clock: \<^verbatim>\<open>control_pump\<close> raises after
  it has driven the relay pin \<open>LOW\<close>.
\<close>

lemma long_sleep_overflows:
  "fst (control_pump module_constants True 10000000000 (started module_constants steady_sensor []))
     = Inl OverflowError
   \<and> gpio (snd (control_pump module_constants True 10000000000
                  (started module_constants steady_sensor []))) 17 = Some LOW"
  by (simp add: run_defs)

end
